theory Spec2Isabelle
  imports Complex_Main "HOL-Library.Multiset"
begin

section \<open>Log events and per-contract aggregation\<close>

text \<open>
  One row of a log table (\<^verbatim>\<open>logs_df\<close>): the columns \<^verbatim>\<open>Transaction Hash\<close>,
  \<^verbatim>\<open>Contract Address\<close>, \<^verbatim>\<open>Input Token\<close>, \<^verbatim>\<open>Output Token\<close> and
  \<^verbatim>\<open>Block Number\<close>. A data frame is the list of its rows. Floating-point columns
  are modelled by exact rationals throughout.
\<close>

record log_event =
  transaction_hash :: string
  contract_address :: string
  input_token :: string
  output_token :: string
  block_number :: int

text \<open>Exceptions of the Python program that the model keeps as values.\<close>

datatype error = ZeroDivisionError | IndexError | KeyError | AlgorithmError | NoSuchKey

text \<open>
  The keys of \<^verbatim>\<open>groupby("Contract Address")\<close>: every contract address once. (pandas
  orders the groups by key; the model keeps the order of first occurrence. No property
  below depends on the order of the rows of a grouped table.)
\<close>

fun group_keys :: "string list \<Rightarrow> string list" where
  "group_keys [] = []"
| "group_keys (c # cs) = c # group_keys (filter (\<lambda>d. d \<noteq> c) cs)"

definition rows_of :: "string \<Rightarrow> log_event list \<Rightarrow> log_event list" where
  "rows_of c logs = filter (\<lambda>r. contract_address r = c) logs"

text \<open>\<^verbatim>\<open>groupby("Contract Address").size()\<close> and the count of transaction hashes.\<close>

definition group_size :: "log_event list \<Rightarrow> (string \<times> nat) list" where
  "group_size logs =
     map (\<lambda>c. (c, length (rows_of c logs))) (group_keys (map contract_address logs))"

record feature_row =
  contract :: string
  tx_count :: nat
  min_block :: int
  max_block :: int
  activity_span :: int

definition min_list_int :: "int list \<Rightarrow> int" where
  "min_list_int xs = fold min (tl xs) (hd xs)"

definition max_list_int :: "int list \<Rightarrow> int" where
  "max_list_int xs = fold max (tl xs) (hd xs)"

text \<open>\<^verbatim>\<open>_features_from_logs_df\<close>: one row per contract of the table.\<close>

definition features_from_logs_df :: "log_event list \<Rightarrow> feature_row list" where
  "features_from_logs_df logs_df =
     (if logs_df = [] then []
      else map (\<lambda>c. let bs = map block_number (rows_of c logs_df)
                     in \<lparr>contract = c, tx_count = length (rows_of c logs_df),
                         min_block = min_list_int bs, max_block = max_list_int bs,
                         activity_span = max_list_int bs - min_list_int bs\<rparr>)
             (group_keys (map contract_address logs_df)))"

section \<open>Quantile labels\<close>

text \<open>
  \<^verbatim>\<open>Series.quantile(q)\<close> with pandas' default linear interpolation: on the sorted
  values the virtual index is \<open>q * (n - 1)\<close>, and the result interpolates between the
  values at its floor and at the next index. An empty series gives NaN, here \<open>None\<close>.
\<close>

definition quantile :: "rat list \<Rightarrow> rat \<Rightarrow> rat option" where
  "quantile xs q =
     (if xs = [] then None
      else let s = sort xs;
               n = length xs;
               pos = q * of_nat (n - 1);
               lo = nat \<lfloor>pos\<rfloor>;
               hi = min (lo + 1) (n - 1);
               frac = pos - of_int \<lfloor>pos\<rfloor>
           in Some (s ! lo + (s ! hi - s ! lo) * frac))"

text \<open>\<^verbatim>\<open>(col >= threshold).astype(int)\<close>; a comparison with NaN is false.\<close>

definition ge_label :: "rat \<Rightarrow> rat option \<Rightarrow> nat" where
  "ge_label v thr = (case thr of None \<Rightarrow> 0 | Some t \<Rightarrow> if t \<le> v then 1 else 0)"

text \<open>
  The labelling of \<^verbatim>\<open>generate_training_data\<close> (lines 363-371) and of
  \<^verbatim>\<open>label_from_future\<close>: the table \<open>liq\<close> of future transaction counts gets
  label 1 where the count reaches the 0.9 quantile of the column.
\<close>

definition label_future_tx :: "(string \<times> nat) list \<Rightarrow> (string \<times> nat) list" where
  "label_future_tx liq =
     (let thr = quantile (map (\<lambda>(c, n). of_nat n) liq) (9 / 10)
      in map (\<lambda>(c, n). (c, ge_label (of_nat n) thr)) liq)"



text \<open>A forward window with two contracts: one transaction of \<open>A\<close>, two of \<open>B\<close>.\<close>

definition two_pool_logs :: "log_event list" where
  "two_pool_logs =
     [\<lparr>transaction_hash = ''t1'', contract_address = ''A'', input_token = ''X'',
       output_token = ''Y'', block_number = 1\<rparr>,
      \<lparr>transaction_hash = ''t2'', contract_address = ''B'', input_token = ''Z'',
       output_token = ''X'', block_number = 2\<rparr>,
      \<lparr>transaction_hash = ''t3'', contract_address = ''B'', input_token = ''Z'',
       output_token = ''X'', block_number = 3\<rparr>]"

section \<open>Growth-rate labels\<close>

text \<open>
  Division of pandas columns: a zero denominator raises nothing but gives a non-finite
  value (inf or NaN), which is \<open>None\<close> here.
\<close>

definition pd_div :: "rat \<Rightarrow> rat \<Rightarrow> rat option" where
  "pd_div a b = (if b = 0 then None else Some (a / b))"

text \<open>Lines 264-267: \<^verbatim>\<open>(volume_future - volume_1d_current) / (volume_1d_current + 1) * 100\<close>.\<close>

definition growth_pct :: "nat \<Rightarrow> nat \<Rightarrow> rat option" where
  "growth_pct cur fut = map_option (\<lambda>x. x * 100) (pd_div (of_nat fut - of_nat cur) (of_nat cur + 1))"

record growth_row =
  g_contract :: string
  volume_1d_current :: nat
  volume_future :: nat
  volume_growth_pct :: "rat option"
  label :: nat

text \<open>\<^verbatim>\<open>pd.merge(left, right, on="contract", how="left").fillna(0)\<close>, the keys of \<open>right\<close> unique.\<close>

definition merge_left :: "(string \<times> nat) list \<Rightarrow> (string \<times> nat) list \<Rightarrow> (string \<times> nat \<times> nat) list" where
  "merge_left left right =
     map (\<lambda>(c, v). (c, v, case map_of right c of None \<Rightarrow> 0 | Some f \<Rightarrow> f)) left"

definition finite_values :: "rat option list \<Rightarrow> rat list" where
  "finite_values ps = concat (map (\<lambda>p. case p of None \<Rightarrow> [] | Some x \<Rightarrow> [x]) ps)"

text \<open>
  The table \<^verbatim>\<open>volume_growth\<close> of \<^verbatim>\<open>generate_training_data_from_rolling\<close> (lines
  253-271), from the current one-day logs and the historical logs.
\<close>

definition volume_growth :: "log_event list \<Rightarrow> log_event list \<Rightarrow> growth_row list" where
  "volume_growth logs_1d_current_df logs_historical_df =
     (let merged = merge_left (group_size logs_1d_current_df) (group_size logs_historical_df);
          pcts = map (\<lambda>(c, v, f). growth_pct v f) merged;
          threshold = quantile (finite_values pcts) (8 / 10)
      in map (\<lambda>(c, v, f).
                \<lparr>g_contract = c, volume_1d_current = v, volume_future = f,
                 volume_growth_pct = growth_pct v f,
                 label = (case growth_pct v f of None \<Rightarrow> 0 | Some x \<Rightarrow> ge_label x threshold)\<rparr>)
             merged)"

text \<open>The spec's formula of the percentage growth of a row.\<close>

definition spec_growth :: "growth_row \<Rightarrow> rat" where
  "spec_growth r =
     (of_nat (volume_future r) - of_nat (volume_1d_current r)) / (of_nat (volume_1d_current r) + 1) * 100"

section \<open>One-week backtest\<close>

text \<open>The seven block-range slices of \<^verbatim>\<open>backtest_one_week\<close>.\<close>

definition slices :: "int \<Rightarrow> log_event list \<Rightarrow> log_event list list" where
  "slices blocks_per_day df =
     (let max_block = max_list_int (map block_number df);
          start_block = max_block - 7 * blocks_per_day + 1
      in map (\<lambda>i. let lo = start_block + int i * blocks_per_day;
                       hi = lo + blocks_per_day - 1
                   in filter (\<lambda>r. lo \<le> block_number r \<and> block_number r \<le> hi) df)
             [0..<7])"

definition label_from_future :: "log_event list list \<Rightarrow> nat \<Rightarrow> (string \<times> nat) list" where
  "label_from_future sl day_idx =
     (let future_parts = map (\<lambda>k. sl ! k) (filter (\<lambda>k. k < 7) (map (\<lambda>j. day_idx + j) [1, 2, 3]))
      in if future_parts = [] then []
         else let liq = group_size (concat future_parts)
              in if liq = [] then [] else label_future_tx liq)"

text \<open>\<^verbatim>\<open>day_features[i].merge(day_labels[i], on="contract", how="inner")\<close>.\<close>

definition merge_inner :: "feature_row list \<Rightarrow> (string \<times> nat) list \<Rightarrow> (feature_row \<times> nat) list" where
  "merge_inner feats labels =
     concat (map (\<lambda>f. map (\<lambda>(c, l). (f, l)) (filter (\<lambda>(c, l). c = contract f) labels)) feats)"

text \<open>
  The segments whose rows are pooled into the training set of test index \<open>t\<close>: the
  inner loop \<^verbatim>\<open>for i in range(0, t)\<close> with its two \<^verbatim>\<open>continue\<close>s.
\<close>

definition train_segments :: "feature_row list list \<Rightarrow> (string \<times> nat) list list \<Rightarrow> nat \<Rightarrow> nat list" where
  "train_segments day_features day_labels t =
     filter (\<lambda>i. \<not> (day_features ! i = [] \<or> day_labels ! i = [])
                \<and> merge_inner (day_features ! i) (day_labels ! i) \<noteq> [])
            [0..<t]"

definition train_rows :: "feature_row list list \<Rightarrow> (string \<times> nat) list list \<Rightarrow> nat \<Rightarrow> (nat \<times> feature_row \<times> nat) list" where
  "train_rows day_features day_labels t =
     concat (map (\<lambda>i. map (\<lambda>(f, l). (i, f, l)) (merge_inner (day_features ! i) (day_labels ! i)))
                 (train_segments day_features day_labels t))"

text \<open>\<^verbatim>\<open>DataFrame.head(n)\<close>: the first \<open>n\<close> rows, or all but the last \<open>-n\<close>.\<close>

definition head :: "int \<Rightarrow> 'a list \<Rightarrow> 'a list" where
  "head n xs = (if 0 \<le> n then take (nat n) xs else take (length xs - nat (- n)) xs)"

text \<open>Python's \<^verbatim>\<open>a / b\<close> on integers.\<close>

definition truediv :: "int \<Rightarrow> int \<Rightarrow> error + rat" where
  "truediv a b = (if b = 0 then Inl ZeroDivisionError else Inr (of_int a / of_int b))"

text \<open>
  Lines 1039-1045: Precision at K of the ranked contracts \<open>scored\<close> against the
  labels \<open>y_true_df\<close> of the test segment.
\<close>

definition truth_set :: "(string \<times> nat) list \<Rightarrow> string set" where
  "truth_set y_true_df = set (map fst (filter (\<lambda>(c, l). l = 1) y_true_df))"

definition precision_at_k :: "string list \<Rightarrow> int \<Rightarrow> (string \<times> nat) list \<Rightarrow> error + rat" where
  "precision_at_k scored top_k y_true_df =
     (let top = head top_k scored;
          truth = truth_set y_true_df;
          hits = length (filter (\<lambda>c. c \<in> truth) top)
      in truediv (int hits) (max 1 (int (length top))))"

text \<open>
  The classifier is scikit-learn's random forest, which the repository only calls:
  \<^verbatim>\<open>clf.fit(X_train, y_train)\<close> followed by \<^verbatim>\<open>clf.predict_proba(Xt)[:, 1]\<close>
  is a parameter that maps the training table to a scoring function of a feature row
  (\<^verbatim>\<open>tx_count\<close>, \<^verbatim>\<open>activity_span\<close>), or raises. \<^verbatim>\<open>backtest_one_week\<close> has no
  handler around these calls, so an exception ends the whole run.
\<close>

type_synonym classifier = "(nat \<times> int) list \<Rightarrow> nat list \<Rightarrow> error + (nat \<times> int \<Rightarrow> rat)"

text \<open>
  \<^verbatim>\<open>scored.sort_values("prob", ascending=False)\<close>. (Rows of equal probability are
  kept in their order here; pandas leaves their order open.)
\<close>

definition sort_by_prob :: "(feature_row \<times> rat) list \<Rightarrow> (feature_row \<times> rat) list" where
  "sort_by_prob scored = sort_key (\<lambda>(f, p). - p) scored"

text \<open>
  The loop \<^verbatim>\<open>for t in range(0, 4)\<close> of \<^verbatim>\<open>backtest_one_week\<close>, over the remaining
  indices; \<open>results\<close> pairs every appended Precision at K with its index \<open>t\<close>.
\<close>

fun backtest_loop ::
  "classifier \<Rightarrow> feature_row list list \<Rightarrow> (string \<times> nat) list list \<Rightarrow> int
     \<Rightarrow> nat list \<Rightarrow> (nat \<times> rat) list \<Rightarrow> error + (nat \<times> rat) list" where
  "backtest_loop clf day_features day_labels top_k [] results = Inr results"
| "backtest_loop clf day_features day_labels top_k (t # ts) results =
     (if train_segments day_features day_labels t = []
      then backtest_loop clf day_features day_labels top_k ts results
      else let rows = train_rows day_features day_labels t;
               X_train = map (\<lambda>(i, f, l). (tx_count f, activity_span f)) rows;
               y_train = map (\<lambda>(i, f, l). l) rows;
               X_test_df = day_features ! t;
               y_true_df = day_labels ! t
           in if X_test_df = [] \<or> y_true_df = []
              then backtest_loop clf day_features day_labels top_k ts results
              else (case clf X_train y_train of
                      Inl e \<Rightarrow> Inl e
                    | Inr predict \<Rightarrow>
                        let scored = sort_by_prob
                              (map (\<lambda>f. (f, predict (tx_count f, activity_span f))) X_test_df)
                        in (case precision_at_k (map (\<lambda>(f, p). contract f) scored) top_k y_true_df of
                              Inl e \<Rightarrow> Inl e
                            | Inr prec_at_k \<Rightarrow>
                                backtest_loop clf day_features day_labels top_k ts
                                  (results @ [(t, prec_at_k)]))))"

text \<open>\<^verbatim>\<open>day_features\<close> and \<^verbatim>\<open>day_labels\<close> of the week \<open>df\<close>.\<close>

definition week_features :: "int \<Rightarrow> log_event list \<Rightarrow> feature_row list list" where
  "week_features blocks_per_day df = map features_from_logs_df (slices blocks_per_day df)"

definition week_labels :: "int \<Rightarrow> log_event list \<Rightarrow> (string \<times> nat) list list" where
  "week_labels blocks_per_day df = map (label_from_future (slices blocks_per_day df)) [0..<7]"

definition backtest_one_week ::
  "classifier \<Rightarrow> int \<Rightarrow> int \<Rightarrow> log_event list \<Rightarrow> error + (nat \<times> rat) list" where
  "backtest_one_week clf blocks_per_day top_k df =
     (if df = [] then Inr []
      else backtest_loop clf (week_features blocks_per_day df) (week_labels blocks_per_day df)
             top_k [0..<4] [])"

text \<open>The reported average: \<^verbatim>\<open>sum(results)/len(results)\<close>, printed only when there are results.\<close>

definition average_precision :: "(nat \<times> rat) list \<Rightarrow> rat option" where
  "average_precision results =
     (if results = [] then None
      else Some (sum_list (map snd results) / of_nat (length results)))"

text \<open>
  The spec's wording of an evaluable index: at least one future segment among
  \<open>t+1..t+3\<close> exists in the week, and an earlier segment has usable training pairs.
\<close>

definition spec_evaluable :: "feature_row list list \<Rightarrow> (string \<times> nat) list list \<Rightarrow> nat \<Rightarrow> bool" where
  "spec_evaluable day_features day_labels t =
     (filter (\<lambda>k. k < 7) [t + 1, t + 2, t + 3] \<noteq> []
      \<and> train_segments day_features day_labels t \<noteq> [])"

text \<open>What the loop tests before it scores index \<open>t\<close>.\<close>

definition evaluated :: "feature_row list list \<Rightarrow> (string \<times> nat) list list \<Rightarrow> nat \<Rightarrow> bool" where
  "evaluated day_features day_labels t =
     (train_segments day_features day_labels t \<noteq> []
      \<and> day_features ! t \<noteq> [] \<and> day_labels ! t \<noteq> [])"

text \<open>A week with one transaction of one contract in each of seven one-block days.\<close>

definition week_logs :: "log_event list" where
  "week_logs =
     map (\<lambda>b. \<lparr>transaction_hash = ''tx'', contract_address = ''A'', input_token = ''X'',
               output_token = ''Y'', block_number = int b\<rparr>) [1..<8]"

text \<open>
  A week of seven one-block days with, in every day, one transaction of contract \<open>A\<close>
  and two of contract \<open>B\<close>; and the same week with four more transactions of \<open>A\<close> in
  segment 3 (block 4).
\<close>

definition two_class_day :: "int \<Rightarrow> log_event list" where
  "two_class_day b =
     [\<lparr>transaction_hash = ''a'', contract_address = ''A'', input_token = ''X'',
       output_token = ''Y'', block_number = b\<rparr>,
      \<lparr>transaction_hash = ''b1'', contract_address = ''B'', input_token = ''Z'',
       output_token = ''X'', block_number = b\<rparr>,
      \<lparr>transaction_hash = ''b2'', contract_address = ''B'', input_token = ''Z'',
       output_token = ''X'', block_number = b\<rparr>]"

definition two_class_week :: "log_event list" where
  "two_class_week = concat (map (\<lambda>b. two_class_day (int b)) [1..<8])"


text \<open>
  A stand-in for the random forest on small tables. Like the forest it cannot give the
  probability of class 1 when the training labels have a single class: then
  \<^verbatim>\<open>predict_proba\<close> has one column and \<^verbatim>\<open>[:, 1]\<close> raises \<open>IndexError\<close>. Otherwise
  it scores a row by the share of label 1 among the training rows with the same features.
\<close>

definition lookup_clf :: classifier where
  "lookup_clf X_train y_train =
     (if 0 \<in> set y_train \<and> 1 \<in> set y_train
      then Inr (\<lambda>x. of_nat (length (filter (\<lambda>(x', y). x' = x \<and> y = 1) (zip X_train y_train)))
                     / of_nat (max 1 (length (filter (\<lambda>(x', y). x' = x) (zip X_train y_train)))))
      else Inl IndexError)"


section \<open>Token-flow graph and centrality\<close>

text \<open>
  The dictionary \<^verbatim>\<open>contract_tokens\<close> of \<^verbatim>\<open>calculate_contract_centrality\<close>, in
  insertion order: a contract not yet present gets the empty set, then the input token and
  the output token of the row are both added to the one set of the contract.
\<close>

fun add_tokens :: "string \<Rightarrow> string set \<Rightarrow> (string \<times> string set) list \<Rightarrow> (string \<times> string set) list" where
  "add_tokens c ts [] = [(c, {} \<union> ts)]"
| "add_tokens c ts ((k, v) # m) =
     (if k = c then (k, v \<union> ts) # m else (k, v) # add_tokens c ts m)"

definition contract_tokens :: "log_event list \<Rightarrow> (string \<times> string set) list" where
  "contract_tokens logs_df =
     foldl (\<lambda>m row. add_tokens (contract_address row) {input_token row, output_token row} m)
       [] logs_df"

text \<open>
  The two nested \<^verbatim>\<open>enumerate\<close> loops over the keys: for positions \<open>i \<noteq> j\<close> whose token
  sets intersect, the edge from the first contract to the second one, weighted by the
  number of shared tokens.
\<close>

definition token_flow_edges :: "(string \<times> string set) list \<Rightarrow> (string \<times> string \<times> nat) list" where
  "token_flow_edges tokens =
     concat (map (\<lambda>(i, contract1, contract1_outputs).
       concat (map (\<lambda>(j, contract2, contract2_inputs).
         if i \<noteq> j \<and> contract1_outputs \<inter> contract2_inputs \<noteq> {}
         then [(contract1, contract2, card (contract1_outputs \<inter> contract2_inputs))]
         else [])
         (enumerate 0 tokens)))
       (enumerate 0 tokens))"

text \<open>
  A directed graph of \<^verbatim>\<open>networkx\<close>: its nodes in insertion order and its weighted edges,
  one weight per ordered pair of nodes. \<^verbatim>\<open>add_weighted_edges_from\<close> adds the end points of
  every edge as nodes and sets the weight of the pair, replacing an earlier one.
\<close>

record digraph =
  nodes :: "string list"
  edges :: "((string \<times> string) \<times> nat) list"

definition add_node :: "string \<Rightarrow> string list \<Rightarrow> string list" where
  "add_node n ns = (if n \<in> set ns then ns else ns @ [n])"

fun set_weight :: "string \<times> string \<Rightarrow> nat \<Rightarrow> ((string \<times> string) \<times> nat) list \<Rightarrow> ((string \<times> string) \<times> nat) list" where
  "set_weight uv w [] = [(uv, w)]"
| "set_weight uv w ((k, x) # es) = (if k = uv then (k, w) # es else (k, x) # set_weight uv w es)"

definition add_edge :: "digraph \<Rightarrow> string \<times> string \<times> nat \<Rightarrow> digraph" where
  "add_edge G e =
     (case e of (u, v, w) \<Rightarrow>
        \<lparr>nodes = add_node v (add_node u (nodes G)), edges = set_weight (u, v) w (edges G)\<rparr>)"

definition add_weighted_edges_from :: "(string \<times> string \<times> nat) list \<Rightarrow> digraph" where
  "add_weighted_edges_from es = foldl add_edge \<lparr>nodes = [], edges = []\<rparr> es"

definition token_flow_graph :: "log_event list \<Rightarrow> digraph" where
  "token_flow_graph logs_df = add_weighted_edges_from (token_flow_edges (contract_tokens logs_df))"

text \<open>A centrality dictionary: a value for some node names.\<close>

type_synonym centrality = "string \<rightharpoonup> rat"

text \<open>The dictionary \<^verbatim>\<open>{node: 0 for node in G.nodes()}\<close>.\<close>

definition zero_centrality :: "digraph \<Rightarrow> centrality" where
  "zero_centrality G = map_of (map (\<lambda>node. (node, 0)) (nodes G))"

text \<open>
  \<^verbatim>\<open>nx.in_degree_centrality\<close> of the library: with at most one node every node gets 1,
  otherwise the number of incoming edges of a node divided by the number of other nodes.
\<close>

definition in_degree :: "digraph \<Rightarrow> string \<Rightarrow> nat" where
  "in_degree G n = length (filter (\<lambda>((u, v), w). v = n) (edges G))"

definition in_degree_centrality :: "digraph \<Rightarrow> centrality" where
  "in_degree_centrality G =
     (if length (nodes G) \<le> 1 then map_of (map (\<lambda>n. (n, 1)) (nodes G))
      else map_of (map (\<lambda>n. (n, of_nat (in_degree G n) * (1 / (of_nat (length (nodes G)) - 1))))
                    (nodes G)))"

text \<open>\<^verbatim>\<open>try: body except: handler\<close> with a bare \<^verbatim>\<open>except\<close>, which catches every error.\<close>

definition try_except :: "error + 'a \<Rightarrow> error + 'a \<Rightarrow> error + 'a" where
  "try_except body handler = (case body of Inl e \<Rightarrow> handler | Inr v \<Rightarrow> Inr v)"

text \<open>
  \<^verbatim>\<open>calculate_contract_centrality\<close>. The four algorithms of the graph library that may
  raise (\<^verbatim>\<open>nx.betweenness_centrality\<close>, \<^verbatim>\<open>nx.closeness_centrality\<close>,
  \<^verbatim>\<open>nx.power_iteration\<close>, \<^verbatim>\<open>nx.eigenvector_centrality_numpy\<close>) are parameters.
\<close>

definition calculate_contract_centrality ::
  "(digraph \<Rightarrow> error + centrality) \<Rightarrow> (digraph \<Rightarrow> error + centrality)
     \<Rightarrow> (digraph \<Rightarrow> error + centrality) \<Rightarrow> (digraph \<Rightarrow> error + centrality)
     \<Rightarrow> log_event list \<Rightarrow> error + (centrality \<times> centrality \<times> centrality \<times> digraph)" where
  "calculate_contract_centrality nx_betweenness_centrality nx_closeness_centrality
       nx_power_iteration nx_eigenvector_centrality_numpy logs_df =
     (let G = add_weighted_edges_from (token_flow_edges (contract_tokens logs_df))
      in case try_except (nx_betweenness_centrality G) (Inr (zero_centrality G)) of
           Inl e \<Rightarrow> Inl e
         | Inr betweenness_centrality \<Rightarrow>
      (case try_except (nx_closeness_centrality G) (Inr (zero_centrality G)) of
           Inl e \<Rightarrow> Inl e
         | Inr closeness_centrality \<Rightarrow>
      (case try_except (nx_power_iteration G)
              (try_except (nx_eigenvector_centrality_numpy G) (Inr (in_degree_centrality G))) of
           Inl e \<Rightarrow> Inl e
         | Inr eigenvector_centrality \<Rightarrow>
             Inr (betweenness_centrality, closeness_centrality, eigenvector_centrality, G))))"

text \<open>
  The three centrality columns of a feature table:
  \<^verbatim>\<open>features["contract"].map(centrality).fillna(0)\<close>, a contract that is no key of the
  dictionary getting 0.
\<close>

definition map_fillna :: "centrality \<Rightarrow> string \<Rightarrow> rat" where
  "map_fillna d c = (case d c of None \<Rightarrow> 0 | Some v \<Rightarrow> v)"

record centrality_row =
  cr_contract :: string
  betweenness_centrality :: rat
  closeness_centrality :: rat
  eigenvector_centrality :: rat

definition centrality_features ::
  "(digraph \<Rightarrow> error + centrality) \<Rightarrow> (digraph \<Rightarrow> error + centrality)
     \<Rightarrow> (digraph \<Rightarrow> error + centrality) \<Rightarrow> (digraph \<Rightarrow> error + centrality)
     \<Rightarrow> log_event list \<Rightarrow> error + centrality_row list" where
  "centrality_features nx_betweenness_centrality nx_closeness_centrality
       nx_power_iteration nx_eigenvector_centrality_numpy logs_df =
     (case calculate_contract_centrality nx_betweenness_centrality nx_closeness_centrality
             nx_power_iteration nx_eigenvector_centrality_numpy logs_df of
        Inl e \<Rightarrow> Inl e
      | Inr (betweenness, closeness, eigenvector, G) \<Rightarrow>
          Inr (map (\<lambda>f. \<lparr>cr_contract = contract f,
                         betweenness_centrality = map_fillna betweenness (contract f),
                         closeness_centrality = map_fillna closeness (contract f),
                         eigenvector_centrality = map_fillna eigenvector (contract f)\<rparr>)
                 (features_from_logs_df logs_df)))"

text \<open>
  The tokens a contract is observed to output and to input, as the specification of the
  graph words them, for comparison with the one set per contract of the program.
\<close>

definition observed_outputs :: "log_event list \<Rightarrow> string \<Rightarrow> string set" where
  "observed_outputs logs_df c = set (map output_token (rows_of c logs_df))"

definition observed_inputs :: "log_event list \<Rightarrow> string \<Rightarrow> string set" where
  "observed_inputs logs_df c = set (map input_token (rows_of c logs_df))"

text \<open>An algorithm that raises on every graph, and one that gives every node the value 1.\<close>

definition failing_algorithm :: "digraph \<Rightarrow> error + centrality" where
  "failing_algorithm G = Inl AlgorithmError"

definition unit_algorithm :: "digraph \<Rightarrow> error + centrality" where
  "unit_algorithm G = Inr (map_of (map (\<lambda>n. (n, 1)) (nodes G)))"

text \<open>The betweenness dictionary of a result, read at one node.\<close>

definition betweenness_at ::
  "error + (centrality \<times> centrality \<times> centrality \<times> digraph) \<Rightarrow> string \<Rightarrow> rat option" where
  "betweenness_at res n = (case res of Inl e \<Rightarrow> None | Inr (b, c, e, G) \<Rightarrow> b n)"

text \<open>Three contracts: \<open>A\<close> and \<open>B\<close> share the token \<open>X\<close>, \<open>C\<close> shares no token.\<close>

definition three_pool_logs :: "log_event list" where
  "three_pool_logs = two_pool_logs @
     [\<lparr>transaction_hash = ''t4'', contract_address = ''C'', input_token = ''P'',
       output_token = ''Q'', block_number = 4\<rparr>]"

section \<open>Token allow-list filter\<close>

text \<open>The table \<^verbatim>\<open>KNOWN_TOKENS\<close> of \<^verbatim>\<open>get_token_symbol\<close>; its keys are distinct.\<close>

definition KNOWN_TOKENS :: "(string \<times> string) list" where
  "KNOWN_TOKENS =
     [(''0xdAC17F958D2ee523a2206206994597C13D831ec7'', ''USDT''),
      (''0xA0b86991c31D6832c4b0B9e26cB4171d43c4a9a4'', ''USDC''),
      (''0x6B175474E89094C44Da98b954EedeAC495271d0F'', ''DAI''),
      (''0xC02aaA39b223FE8D0A0e5C4F27eAD9083C756Cc2'', ''WETH''),
      (''0x2260FAC5E5542a773Aa44fBCfeDf7C193bc2C599'', ''WBTC''),
      (''0x83F20F44975D03b1b09e64809B757c47f942BEeA'', ''SDAI''),
      (''0x9D39A5DE30e57443BfF2A8307A4256c8797A3497'', ''SUSDE''),
      (''0x4c9EDD5852cd905f086C759E8383e09bff1E68B3'', ''USDE''),
      (''0x6c3ea9036406852006290770BEdFcAbA0e23A0e8'', ''PYUSD''),
      (''0x99D8a9C45b2ecA8864373A26D1459e3Dff1e17F3'', ''MIM''),
      (''0x853d955aCEf822Db058eb8505911ED77F175b99e'', ''FRAX''),
      (''0xf939E0A03FB07F59A73314E73794Be0E57ac1b4E'', ''crvUSD''),
      (''0xdC035D45d973E3EC169d2276DDab16f1e407384F'', ''USDS''),
      (''0x40D16FC0246aD3160Ccc09B8D0D3A2cD28aE6C2f'', ''GHO''),
      (''0x57Ab1ec28D129707052df4dF418D58a2D46d5f51'', ''sY''),
      (''0x9fE46736679d2D9a65F0992F2272dE9f3c7fa6e0'', ''USD3''),
      (''0x0C10bF8FcB7Bf5412187A595ab97a3609160b5c6'', ''USDD''),
      (''0x056Fd409E1d7A124BD7017459dFEa2F387b6d5Cd'', ''GUSD''),
      (''0xFd086bC7CD5C481DCC9C85ebE478A1C0b69FCbb9'', ''USDT''),
      (''0x8f3Cf7ad23Cd3CaDbD9735AFf958023239c6A063'', ''DAI''),
      (''0xae78736Cd615f374D3085123A210448E74Fc6393'', ''rETH''),
      (''0x7f39C581F595B53c5cb19bD0b3f8dA6c935E2Ca0'', ''wstETH''),
      (''0xA35b1B31Ce002FBF2058D22F30f95D405200A15b'', ''ETHx'')]"

text \<open>
  \<^verbatim>\<open>get_token_symbol\<close>: the symbol of the table when the address is a key of it;
  otherwise the symbol that the chain returns, and the shortened address
  \<^verbatim>\<open>token_address[:8] + "..."\<close> when the query fails in any way (no connection, no
  checksum address, an exception of the call) or returns the empty string. The parameter
  \<open>symbol_call\<close> is the query of the chain, \<open>None\<close> when it fails.
\<close>

definition get_token_symbol :: "(string \<Rightarrow> string option) \<Rightarrow> string \<Rightarrow> string" where
  "get_token_symbol symbol_call token_address =
     (case map_of KNOWN_TOKENS token_address of
        Some known \<Rightarrow> known
      | None \<Rightarrow>
          (case symbol_call token_address of
             None \<Rightarrow> take 8 token_address @ ''...''
           | Some symbol \<Rightarrow> if symbol \<noteq> [] then symbol else take 8 token_address @ ''...''))"

definition ALLOWED_TOKENS :: "string set" where
  "ALLOWED_TOKENS =
     {''USDE'', ''MSUSD'', ''USDC'', ''PYUSD'', ''SUSDE'', ''DAI'', ''MIM'', ''EUSD'',
      ''USD3'', ''DOLA'', ''SDAI'', ''FRAXBP'', ''USDT'', ''3CRV'', ''USDM'', ''USDS'', ''frxUSD''}"

text \<open>
  \<^verbatim>\<open>list(set(list(input_tokens) + list(output_tokens)))\<close> over the rows of one contract:
  every token of the two columns once. (The order of a Python set is not fixed; nothing
  below depends on it.)
\<close>

definition all_tokens :: "log_event list \<Rightarrow> string list" where
  "all_tokens contract_logs =
     remdups (remdups (map input_token contract_logs) @ remdups (map output_token contract_logs))"

text \<open>
  The loop \<^verbatim>\<open>for token_addr in all_tokens\<close>, on the three variables
  \<^verbatim>\<open>contract_token_symbols\<close>, \<^verbatim>\<open>allowed_tokens_found\<close> and \<^verbatim>\<open>all_tokens_valid\<close>.
\<close>

definition check_token ::
  "(string \<Rightarrow> string option) \<Rightarrow> string list \<times> string list \<times> bool \<Rightarrow> string
     \<Rightarrow> string list \<times> string list \<times> bool" where
  "check_token symbol_call st token_addr =
     (case st of (contract_token_symbols, allowed_tokens_found, all_tokens_valid) \<Rightarrow>
        let token_symbol = get_token_symbol symbol_call token_addr
        in if token_symbol \<in> ALLOWED_TOKENS
           then (contract_token_symbols @ [token_symbol], allowed_tokens_found @ [token_symbol],
                 all_tokens_valid)
           else (contract_token_symbols @ [token_symbol], allowed_tokens_found, False))"

definition check_tokens ::
  "(string \<Rightarrow> string option) \<Rightarrow> string list \<Rightarrow> string list \<times> string list \<times> bool" where
  "check_tokens symbol_call tokens = foldl (check_token symbol_call) ([], [], True) tokens"

text \<open>
  An entry of \<^verbatim>\<open>filtered_pools\<close>. (The display string and the copied feature columns of
  an entry are left out.)
\<close>

record pool =
  pool_contract :: string
  allowed_tokens :: "string list"
  pool_all_tokens :: "string list"
  prob :: rat

text \<open>
  The filtering loop over the ranked rows, \<open>filtered_pools\<close> being the list built so far:
  a contract is appended when it has rows, and all its tokens are valid; the loop ends at
  once when \<^verbatim>\<open>top_k\<close> entries have been reached.
\<close>

fun filter_loop ::
  "(string \<Rightarrow> string option) \<Rightarrow> int \<Rightarrow> log_event list \<Rightarrow> (feature_row \<times> rat) list
     \<Rightarrow> pool list \<Rightarrow> pool list" where
  "filter_loop symbol_call top_k logs_1d_df [] filtered_pools = filtered_pools"
| "filter_loop symbol_call top_k logs_1d_df (row # rest) filtered_pools =
     (let contract_logs = rows_of (contract (fst row)) logs_1d_df
      in if contract_logs \<noteq> [] \<and> 1 \<le> length (all_tokens contract_logs)
         then (case check_tokens symbol_call (all_tokens contract_logs) of
                 (contract_token_symbols, allowed_tokens_found, all_tokens_valid) \<Rightarrow>
                   if all_tokens_valid
                      \<and> length allowed_tokens_found = length contract_token_symbols
                   then let appended = filtered_pools @
                              [\<lparr>pool_contract = contract (fst row),
                                allowed_tokens = allowed_tokens_found,
                                pool_all_tokens = contract_token_symbols,
                                prob = snd row\<rparr>]
                        in if top_k \<le> int (length appended) then appended
                           else filter_loop symbol_call top_k logs_1d_df rest appended
                   else filter_loop symbol_call top_k logs_1d_df rest filtered_pools)
         else filter_loop symbol_call top_k logs_1d_df rest filtered_pools)"

text \<open>
  The filtered ranking of \<^verbatim>\<open>infer_top_multi_timeframe\<close>: the \<^verbatim>\<open>top_k * 3\<close> best rows
  are checked. In \<^verbatim>\<open>infer_top\<close> the ranking is first cut to \<^verbatim>\<open>top_k\<close> rows.
\<close>

definition infer_top_multi_timeframe_filtered ::
  "(string \<Rightarrow> string option) \<Rightarrow> int \<Rightarrow> log_event list \<Rightarrow> (feature_row \<times> rat) list \<Rightarrow> pool list" where
  "infer_top_multi_timeframe_filtered symbol_call top_k logs_1d_df current_features =
     filter_loop symbol_call top_k logs_1d_df
       (head (top_k * 3) (sort_by_prob current_features)) []"

definition infer_top_filtered ::
  "(string \<Rightarrow> string option) \<Rightarrow> int \<Rightarrow> log_event list \<Rightarrow> (feature_row \<times> rat) list \<Rightarrow> pool list" where
  "infer_top_filtered symbol_call top_k logs_1d_df current_features =
     filter_loop symbol_call top_k logs_1d_df
       (head (top_k * 3) (head top_k (sort_by_prob current_features))) []"

text \<open>The tokens observed for a contract: the input and output tokens of all its rows.\<close>

definition observed_tokens :: "log_event list \<Rightarrow> string \<Rightarrow> string set" where
  "observed_tokens logs_df c = observed_inputs logs_df c \<union> observed_outputs logs_df c"

text \<open>
  Two pools: \<open>P1\<close> swaps USDC and DAI, \<open>P2\<close> swaps USDC and a token that neither the table
  nor the chain knows; \<open>P2\<close> is ranked first.
\<close>

definition stable_pool_logs :: "log_event list" where
  "stable_pool_logs =
     [\<lparr>transaction_hash = ''t1'', contract_address = ''P1'',
       input_token = ''0xA0b86991c31D6832c4b0B9e26cB4171d43c4a9a4'',
       output_token = ''0x6B175474E89094C44Da98b954EedeAC495271d0F'', block_number = 1\<rparr>,
      \<lparr>transaction_hash = ''t2'', contract_address = ''P2'',
       input_token = ''0xA0b86991c31D6832c4b0B9e26cB4171d43c4a9a4'',
       output_token = ''0x0000000000000000000000000000000000000bad'', block_number = 2\<rparr>]"

definition stable_pool_scores :: "(feature_row \<times> rat) list" where
  "stable_pool_scores =
     [(\<lparr>contract = ''P1'', tx_count = 1, min_block = 1, max_block = 1, activity_span = 0\<rparr>, 4 / 5),
      (\<lparr>contract = ''P2'', tx_count = 1, min_block = 2, max_block = 2, activity_span = 0\<rparr>, 9 / 10)]"

definition no_symbol :: "string \<Rightarrow> string option" where
  "no_symbol token_address = None"

section \<open>Fixtures of the growth table\<close>

text \<open>The two transactions of contract \<open>B\<close> alone: contract \<open>A\<close> has no current volume.\<close>

definition b_pool_logs :: "log_event list" where
  "b_pool_logs = tl two_pool_logs"

text \<open>The number of rows of the growth table with label 1.\<close>

definition growth_ones :: "growth_row list \<Rightarrow> nat" where
  "growth_ones rows = length (filter (\<lambda>r. label r = 1) rows)"

section \<open>Weighted ensemble over timeframes\<close>

text \<open>The table \<^verbatim>\<open>timeframe_weights\<close> and \<^verbatim>\<open>timeframe_weights.get(timeframe, 0.1)\<close>.\<close>

definition timeframe_weights :: "(string \<times> rat) list" where
  "timeframe_weights =
     [(''1D'', 4 / 10), (''3D'', 35 / 100), (''1W'', 2 / 10), (''3W'', 5 / 100), (''1M'', 5 / 100)]"

definition timeframe_weight :: "string \<Rightarrow> rat" where
  "timeframe_weight timeframe =
     (case map_of timeframe_weights timeframe of None \<Rightarrow> 1 / 10 | Some w \<Rightarrow> w)"

text \<open>\<^verbatim>\<open>str.lower\<close> on ASCII letters.\<close>

definition lower_char :: "char \<Rightarrow> char" where
  "lower_char c =
     (if 65 \<le> (of_char c :: nat) \<and> (of_char c :: nat) \<le> 90 then char_of (of_char c + 32 :: nat)
      else c)"

definition lower :: "string \<Rightarrow> string" where
  "lower s = map lower_char s"

text \<open>
  Loading a model with its feature list from the bucket. The two parameters read and
  decode an object of the bucket; they raise \<open>NoSuchKey\<close> for a missing key and may raise
  anything else. \<open>suffix\<close> is \<^verbatim>\<open>_<tf_lower>\<close> for the model of a timeframe and empty
  for the original model.
\<close>

definition load_model ::
  "(string \<Rightarrow> error + 'm) \<Rightarrow> (string \<Rightarrow> error + string list) \<Rightarrow> string
     \<Rightarrow> error + ('m \<times> string list)" where
  "load_model get_model get_feature_list suffix =
     (case get_model (''training/models/random_forest'' @ suffix @ ''.pkl'') of
        Inl e \<Rightarrow> Inl e
      | Inr model \<Rightarrow>
          (case get_feature_list (''training/models/feature_list'' @ suffix @ ''.json'') of
             Inl e \<Rightarrow> Inl e
           | Inr features_to_use \<Rightarrow> Inr (model, features_to_use)))"

text \<open>
  The body of the loop for one timeframe, up to the weighted probabilities: \<open>None\<close> when
  the iteration is left by \<^verbatim>\<open>continue\<close> (no model for the timeframe and no original
  model, or any other exception, which the outer \<^verbatim>\<open>except Exception\<close> catches).
  \<open>predict_proba model features_to_use\<close> stands for selecting the columns and predicting:
  it raises, or gives the probability of the positive class for every row. A feature list
  that decodes to \<^verbatim>\<open>None\<close> leaves the iteration without a contribution as well, and
  is an \<open>Inl\<close> of \<open>get_feature_list\<close> here.
\<close>

definition weighted_probs ::
  "(string \<Rightarrow> error + 'm) \<Rightarrow> (string \<Rightarrow> error + string list)
     \<Rightarrow> ('m \<Rightarrow> string list \<Rightarrow> error + ('row \<Rightarrow> rat)) \<Rightarrow> string \<Rightarrow> ('row \<Rightarrow> rat) option" where
  "weighted_probs get_model get_feature_list predict_proba timeframe =
     (let tf_lower = lower timeframe;
          loaded =
            (case load_model get_model get_feature_list (''_'' @ tf_lower) of
               Inr found \<Rightarrow> Inr found
             | Inl e \<Rightarrow>
                 if e = NoSuchKey then load_model get_model get_feature_list [] else Inl e)
      in case loaded of
           Inl e \<Rightarrow> None
         | Inr (model, features_to_use) \<Rightarrow>
             (case predict_proba model features_to_use of
                Inl e \<Rightarrow> None
              | Inr probabilities \<Rightarrow>
                  Some (\<lambda>row. probabilities row * timeframe_weight timeframe)))"

text \<open>
  One pass of \<^verbatim>\<open>for timeframe in timeframes\<close> on the variables
  \<^verbatim>\<open>weighted_probabilities\<close> (one number per row of \<^verbatim>\<open>current_features\<close>, or \<open>None\<close>)
  and \<^verbatim>\<open>successful_models\<close>.
\<close>

definition ensemble_step ::
  "(string \<Rightarrow> error + 'm) \<Rightarrow> (string \<Rightarrow> error + string list)
     \<Rightarrow> ('m \<Rightarrow> string list \<Rightarrow> error + ('row \<Rightarrow> rat)) \<Rightarrow> 'row list
     \<Rightarrow> rat list option \<times> string list \<Rightarrow> string \<Rightarrow> rat list option \<times> string list" where
  "ensemble_step get_model get_feature_list predict_proba current_features st timeframe =
     (case weighted_probs get_model get_feature_list predict_proba timeframe of
        None \<Rightarrow> st
      | Some w \<Rightarrow>
          (case fst st of
             None \<Rightarrow> (Some (map w current_features), snd st @ [timeframe])
           | Some weighted_probabilities \<Rightarrow>
               (Some (map2 (+) weighted_probabilities (map w current_features)),
                snd st @ [timeframe])))"

definition ensemble_scores ::
  "(string \<Rightarrow> error + 'm) \<Rightarrow> (string \<Rightarrow> error + string list)
     \<Rightarrow> ('m \<Rightarrow> string list \<Rightarrow> error + ('row \<Rightarrow> rat)) \<Rightarrow> 'row list \<Rightarrow> string list
     \<Rightarrow> rat list option \<times> string list" where
  "ensemble_scores get_model get_feature_list predict_proba current_features timeframes =
     foldl (ensemble_step get_model get_feature_list predict_proba current_features)
       (None, []) timeframes"

text \<open>
  A bucket with a model for \<open>1D\<close> (number 0) and one for \<open>1W\<close> (number 1) and no original
  model; model 0 predicts 1/2 and model 1 predicts 1/4 times the number of transactions.
\<close>

definition demo_get_model :: "string \<Rightarrow> error + nat" where
  "demo_get_model key =
     (if key = ''training/models/random_forest_1d.pkl'' then Inr 0
      else if key = ''training/models/random_forest_1w.pkl'' then Inr 1
      else Inl NoSuchKey)"

definition demo_get_feature_list :: "string \<Rightarrow> error + string list" where
  "demo_get_feature_list key = Inr [''tx_count'']"

definition demo_predict_proba :: "nat \<Rightarrow> string list \<Rightarrow> error + (feature_row \<Rightarrow> rat)" where
  "demo_predict_proba model features_to_use =
     Inr (\<lambda>row. if model = 0 then 1 / 2 else of_nat (tx_count row) / 4)"

section \<open>Precision at K\<close>

lemma length_head_le: "length (head n xs) \<le> length xs"
  by (simp add: head_def)

lemma head_zero: "head 0 xs = []"
  by (simp add: head_def)

lemma precision_at_k_value:
  "precision_at_k scored top_k y_true_df =
     Inr (of_nat (length (filter (\<lambda>c. c \<in> truth_set y_true_df) (head top_k scored)))
          / of_nat (max 1 (length (head top_k scored))))"
proof -
  have nz: "max 1 (int (length (head top_k scored))) \<noteq> 0"
    by simp
  have m: "max 1 (int (length (head top_k scored))) = int (max 1 (length (head top_k scored)))"
    by simp
  show ?thesis
    unfolding precision_at_k_def truediv_def Let_def
    using nz by (simp only: if_False m of_int_of_nat_eq)
qed

text \<open>
  C7. The Precision at K of an evaluated segment is computed without an error, lies
  between 0 and 1, and is 0 when K is 0 or when no contract of the segment has label 1.
\<close>

theorem precision_at_k_bounds:
  "\<exists>p. precision_at_k scored top_k y_true_df = Inr p \<and> 0 \<le> p \<and> p \<le> 1
       \<and> (top_k = 0 \<or> truth_set y_true_df = {} \<longrightarrow> p = 0)"
proof -
  define top where "top = head top_k scored"
  define hits where "hits = length (filter (\<lambda>c. c \<in> truth_set y_true_df) top)"
  define p :: rat where "p = of_nat hits / of_nat (max 1 (length top))"
  have eq: "precision_at_k scored top_k y_true_df = Inr p"
    by (simp only: precision_at_k_value p_def hits_def top_def)
  have le: "hits \<le> max 1 (length top)"
    unfolding hits_def by (rule le_trans [OF length_filter_le]) simp
  have "0 \<le> p"
    unfolding p_def by simp
  moreover have "p \<le> 1"
  proof -
    have "(of_nat hits :: rat) \<le> of_nat (max 1 (length top))"
      using le by (simp only: of_nat_le_iff)
    moreover have "(0::rat) < of_nat (max 1 (length top))"
      by simp
    ultimately show ?thesis unfolding p_def by (simp only: divide_le_eq_1_pos)
  qed
  moreover have "top_k = 0 \<Longrightarrow> p = 0"
    by (simp add: p_def hits_def top_def head_zero)
  moreover have "truth_set y_true_df = {} \<Longrightarrow> p = 0"
    by (simp add: p_def hits_def)
  ultimately show ?thesis using eq by auto
qed

theorem precision_at_k_bounds_witness:
  "precision_at_k [''a'', ''b''] 0 [(''a'', 1)] = Inr 0
   \<and> precision_at_k [''a'', ''b''] 2 [(''c'', 0)] = Inr 0
   \<and> precision_at_k [''a'', ''b''] 2 [(''a'', 1)] = Inr (1 / 2)"
proof -
  have k0: "precision_at_k [''a'', ''b''] 0 [(''a'', 1)] = Inr 0"
    using precision_at_k_bounds [of "[''a'', ''b'']" 0 "[(''a'', 1)]"] by auto
  have t0: "truth_set [(''c'', 0)] = {}"
    by (simp add: truth_set_def)
  have e0: "precision_at_k [''a'', ''b''] 2 [(''c'', 0)] = Inr 0"
    using precision_at_k_bounds [of "[''a'', ''b'']" 2 "[(''c'', 0)]"] t0 by auto
  have h: "precision_at_k [''a'', ''b''] 2 [(''a'', 1)] = Inr (1 / 2)"
    by (simp add: precision_at_k_def truth_set_def head_def truediv_def)
  show ?thesis using k0 e0 h by simp
qed

section \<open>Which segments the backtest scores\<close>

lemma train_segments_nonempty_iff:
  "train_segments F L t \<noteq> [] \<longleftrightarrow>
     (\<exists>i < t. F ! i \<noteq> [] \<and> L ! i \<noteq> [] \<and> merge_inner (F ! i) (L ! i) \<noteq> [])"
proof -
  have "train_segments F L t \<noteq> [] \<longleftrightarrow> set (train_segments F L t) \<noteq> {}"
    by simp
  also have "\<dots> \<longleftrightarrow> (\<exists>i < t. F ! i \<noteq> [] \<and> L ! i \<noteq> [] \<and> merge_inner (F ! i) (L ! i) \<noteq> [])"
    unfolding train_segments_def by auto
  finally show ?thesis .
qed

lemma backtest_loop_indices:
  "backtest_loop clf F L k ts acc = Inr rs \<Longrightarrow>
     map fst rs = map fst acc @ filter (evaluated F L) ts"
proof (induction ts arbitrary: acc)
  case Nil
  then show ?case by simp
next
  case (Cons t ts)
  show ?case
  proof (cases "evaluated F L t")
    case False
    then have "backtest_loop clf F L k (t # ts) acc = backtest_loop clf F L k ts acc"
      by (auto simp: evaluated_def Let_def)
    with Cons False show ?thesis by simp
  next
    case True
    then have ev: "train_segments F L t \<noteq> []" "F ! t \<noteq> []" "L ! t \<noteq> []"
      by (simp_all add: evaluated_def)
    define X where "X = map (\<lambda>(i, f, l). (tx_count f, activity_span f)) (train_rows F L t)"
    define y where "y = map (\<lambda>(i, f, l). l) (train_rows F L t)"
    from Cons.prems ev obtain predict where clf: "clf X y = Inr predict"
      by (cases "clf X y") (simp_all add: Let_def X_def y_def)
    define scored where
      "scored = sort_by_prob (map (\<lambda>f. (f, predict (tx_count f, activity_span f))) (F ! t))"
    obtain p where p: "precision_at_k (map (\<lambda>(f, p). contract f) scored) k (L ! t) = Inr p"
      using precision_at_k_value by blast
    have "backtest_loop clf F L k (t # ts) acc = backtest_loop clf F L k ts (acc @ [(t, p)])"
      using ev clf p by (simp add: Let_def X_def y_def scored_def)
    with Cons.prems have "backtest_loop clf F L k ts (acc @ [(t, p)]) = Inr rs"
      by simp
    from Cons.IH [OF this] True show ?thesis by simp
  qed
qed

lemma backtest_loop_raises:
  assumes "t \<in> set (filter (evaluated F L) ts)"
    and "clf (map (\<lambda>(i, f, l). (tx_count f, activity_span f)) (train_rows F L t))
             (map (\<lambda>(i, f, l). l) (train_rows F L t)) = Inl e"
  shows "\<exists>e'. backtest_loop clf F L k ts acc = Inl e'"
  using assms(1)
proof (induction ts arbitrary: acc)
  case Nil
  then show ?case by simp
next
  case (Cons u ts)
  show ?case
  proof (cases "evaluated F L u")
    case False
    then have "backtest_loop clf F L k (u # ts) acc = backtest_loop clf F L k ts acc"
      by (auto simp: evaluated_def Let_def)
    moreover from Cons.prems False have "t \<in> set (filter (evaluated F L) ts)"
      by simp
    ultimately show ?thesis
      using Cons.IH by simp
  next
    case True
    then have ev: "train_segments F L u \<noteq> []" "F ! u \<noteq> []" "L ! u \<noteq> []"
      by (simp_all add: evaluated_def)
    define X where "X = map (\<lambda>(i, f, l). (tx_count f, activity_span f)) (train_rows F L u)"
    define y where "y = map (\<lambda>(i, f, l). l) (train_rows F L u)"
    show ?thesis
    proof (cases "clf X y")
      case (Inl e')
      then have "backtest_loop clf F L k (u # ts) acc = Inl e'"
        using ev by (simp add: Let_def X_def y_def)
      then show ?thesis by blast
    next
      case (Inr predict)
      with assms(2) have "t \<noteq> u"
        by (auto simp: X_def y_def)
      with Cons.prems True have t: "t \<in> set (filter (evaluated F L) ts)"
        by auto
      define scored where
        "scored = sort_by_prob (map (\<lambda>f. (f, predict (tx_count f, activity_span f))) (F ! u))"
      obtain p where p: "precision_at_k (map (\<lambda>(f, p). contract f) scored) k (L ! u) = Inr p"
        using precision_at_k_value by blast
      have "backtest_loop clf F L k (u # ts) acc = backtest_loop clf F L k ts (acc @ [(u, p)])"
        using ev Inr p by (simp add: Let_def X_def y_def scored_def)
      with Cons.IH [OF t] show ?thesis by simp
    qed
  qed
qed

lemma backtest_loop_returns:
  assumes "\<forall>t \<in> set (filter (evaluated F L) ts).
      \<exists>predict. clf (map (\<lambda>(i, f, l). (tx_count f, activity_span f)) (train_rows F L t))
                     (map (\<lambda>(i, f, l). l) (train_rows F L t)) = Inr predict"
  shows "\<exists>rs. backtest_loop clf F L k ts acc = Inr rs"
  using assms
proof (induction ts arbitrary: acc)
  case Nil
  then show ?case by simp
next
  case (Cons u ts)
  show ?case
  proof (cases "evaluated F L u")
    case False
    then have "backtest_loop clf F L k (u # ts) acc = backtest_loop clf F L k ts acc"
      by (auto simp: evaluated_def Let_def)
    moreover from Cons.prems False have "\<forall>t \<in> set (filter (evaluated F L) ts).
      \<exists>predict. clf (map (\<lambda>(i, f, l). (tx_count f, activity_span f)) (train_rows F L t))
                     (map (\<lambda>(i, f, l). l) (train_rows F L t)) = Inr predict"
      by simp
    ultimately show ?thesis
      using Cons.IH by simp
  next
    case True
    then have ev: "train_segments F L u \<noteq> []" "F ! u \<noteq> []" "L ! u \<noteq> []"
      by (simp_all add: evaluated_def)
    define X where "X = map (\<lambda>(i, f, l). (tx_count f, activity_span f)) (train_rows F L u)"
    define y where "y = map (\<lambda>(i, f, l). l) (train_rows F L u)"
    from Cons.prems True obtain predict where clf: "clf X y = Inr predict"
      unfolding X_def y_def by auto
    from Cons.prems True have rest: "\<forall>t \<in> set (filter (evaluated F L) ts).
      \<exists>predict. clf (map (\<lambda>(i, f, l). (tx_count f, activity_span f)) (train_rows F L t))
                     (map (\<lambda>(i, f, l). l) (train_rows F L t)) = Inr predict"
      by simp
    define scored where
      "scored = sort_by_prob (map (\<lambda>f. (f, predict (tx_count f, activity_span f))) (F ! u))"
    obtain p where p: "precision_at_k (map (\<lambda>(f, p). contract f) scored) k (L ! u) = Inr p"
      using precision_at_k_value by blast
    have "backtest_loop clf F L k (u # ts) acc = backtest_loop clf F L k ts (acc @ [(u, p)])"
      using ev clf p by (simp add: Let_def X_def y_def scored_def)
    with Cons.IH [OF rest] show ?thesis by simp
  qed
qed

lemma backtest_two_class_week:
  "backtest_one_week lookup_clf 1 20 two_class_week = Inr [(1, 1 / 2), (2, 1 / 2), (3, 1 / 2)]"
  by code_simp

lemma evaluated_two_class_week:
  "filter (evaluated (week_features 1 two_class_week) (week_labels 1 two_class_week)) [0..<4]
     = [1, 2, 3]"
  by code_simp

text \<open>
  C6 (as the spec words it) fails: in a week where every segment has one transaction of
  contract \<open>A\<close> and two of contract \<open>B\<close>, index 4 has the future segments 5 and 6 and
  earlier segments with usable pairs of both labels, yet the backtest reports results for
  the indices 1, 2 and 3 only.
\<close>

theorem backtest_skips_index_4:
  "spec_evaluable (week_features 1 two_class_week) (week_labels 1 two_class_week) 4
   \<and> week_labels 1 two_class_week ! 3 = [(''A'', 0), (''B'', 1)]
   \<and> backtest_one_week lookup_clf 1 20 two_class_week = Inr [(1, 1 / 2), (2, 1 / 2), (3, 1 / 2)]"
proof -
  have "spec_evaluable (week_features 1 two_class_week) (week_labels 1 two_class_week) 4"
    by code_simp
  moreover have "week_labels 1 two_class_week ! 3 = [(''A'', 0), (''B'', 1)]"
    by code_simp
  ultimately show ?thesis using backtest_two_class_week by simp
qed

text \<open>
  C6, amended. The loop visits the indices 0 to 3 only. An index \<open>t < 4\<close> is scored when
  an earlier segment has usable (feature, label) pairs and segment \<open>t\<close> has both feature
  rows and labels. The backtest returns its results exactly when training and scoring
  raise no exception at any of these indices (an exception ends the run); the indices with
  a result are then exactly these indices, in order and once each. Every other index adds
  nothing to the results, hence nothing to their average.
\<close>

theorem backtest_evaluated_indices:
  "((\<exists>rs. backtest_one_week clf blocks_per_day top_k df = Inr rs) \<longleftrightarrow>
      df = [] \<or>
      (\<forall>t \<in> set (filter (evaluated (week_features blocks_per_day df) (week_labels blocks_per_day df))
                    [0..<4]).
         \<exists>predict.
           clf (map (\<lambda>(i, f, l). (tx_count f, activity_span f))
                  (train_rows (week_features blocks_per_day df) (week_labels blocks_per_day df) t))
               (map (\<lambda>(i, f, l). l)
                  (train_rows (week_features blocks_per_day df) (week_labels blocks_per_day df) t))
             = Inr predict))
   \<and> (\<forall>rs. backtest_one_week clf blocks_per_day top_k df = Inr rs \<longrightarrow>
        map fst rs =
          (if df = [] then []
           else filter (evaluated (week_features blocks_per_day df) (week_labels blocks_per_day df))
                  [0..<4]))"
proof (intro conjI allI impI)
  define F where "F = week_features blocks_per_day df"
  define L where "L = week_labels blocks_per_day df"
  show "(\<exists>rs. backtest_one_week clf blocks_per_day top_k df = Inr rs) \<longleftrightarrow>
      df = [] \<or>
      (\<forall>t \<in> set (filter (evaluated (week_features blocks_per_day df) (week_labels blocks_per_day df))
                    [0..<4]).
         \<exists>predict.
           clf (map (\<lambda>(i, f, l). (tx_count f, activity_span f))
                  (train_rows (week_features blocks_per_day df) (week_labels blocks_per_day df) t))
               (map (\<lambda>(i, f, l). l)
                  (train_rows (week_features blocks_per_day df) (week_labels blocks_per_day df) t))
             = Inr predict)"
  proof (cases "df = []")
    case True
    then show ?thesis by (simp add: backtest_one_week_def)
  next
    case False
    then have b: "backtest_one_week clf blocks_per_day top_k df = backtest_loop clf F L top_k [0..<4] []"
      by (simp add: backtest_one_week_def F_def L_def)
    have "(\<exists>rs. backtest_loop clf F L top_k [0..<4] [] = Inr rs) \<longleftrightarrow>
        (\<forall>t \<in> set (filter (evaluated F L) [0..<4]).
           \<exists>predict. clf (map (\<lambda>(i, f, l). (tx_count f, activity_span f)) (train_rows F L t))
                         (map (\<lambda>(i, f, l). l) (train_rows F L t)) = Inr predict)"
    proof
      assume r: "\<exists>rs. backtest_loop clf F L top_k [0..<4] [] = Inr rs"
      show "\<forall>t \<in> set (filter (evaluated F L) [0..<4]).
           \<exists>predict. clf (map (\<lambda>(i, f, l). (tx_count f, activity_span f)) (train_rows F L t))
                         (map (\<lambda>(i, f, l). l) (train_rows F L t)) = Inr predict"
      proof
        fix t
        assume t: "t \<in> set (filter (evaluated F L) [0..<4])"
        show "\<exists>predict. clf (map (\<lambda>(i, f, l). (tx_count f, activity_span f)) (train_rows F L t))
                         (map (\<lambda>(i, f, l). l) (train_rows F L t)) = Inr predict"
        proof (cases "clf (map (\<lambda>(i, f, l). (tx_count f, activity_span f)) (train_rows F L t))
                         (map (\<lambda>(i, f, l). l) (train_rows F L t))")
          case (Inl e)
          from backtest_loop_raises [where t = t and F = F and L = L and ts = "[0..<4]"
              and clf = clf and e = e and k = top_k and acc = "[]", OF t Inl] r
          show ?thesis
            by auto
        next
          case (Inr predict)
          then show ?thesis by blast
        qed
      qed
    next
      assume "\<forall>t \<in> set (filter (evaluated F L) [0..<4]).
           \<exists>predict. clf (map (\<lambda>(i, f, l). (tx_count f, activity_span f)) (train_rows F L t))
                         (map (\<lambda>(i, f, l). l) (train_rows F L t)) = Inr predict"
      then show "\<exists>rs. backtest_loop clf F L top_k [0..<4] [] = Inr rs"
        by (rule backtest_loop_returns)
    qed
    with False b show ?thesis
      unfolding F_def L_def by simp
  qed
next
  fix rs
  assume r: "backtest_one_week clf blocks_per_day top_k df = Inr rs"
  show "map fst rs =
          (if df = [] then []
           else filter (evaluated (week_features blocks_per_day df) (week_labels blocks_per_day df))
                  [0..<4])"
  proof (cases "df = []")
    case True
    with r show ?thesis by (simp add: backtest_one_week_def)
  next
    case False
    with r have "backtest_loop clf (week_features blocks_per_day df)
        (week_labels blocks_per_day df) top_k [0..<4] [] = Inr rs"
      by (simp add: backtest_one_week_def)
    from backtest_loop_indices [OF this] False show ?thesis by simp
  qed
qed

theorem backtest_evaluated_indices_witness:
  "backtest_one_week lookup_clf 1 20 two_class_week = Inr [(1, 1 / 2), (2, 1 / 2), (3, 1 / 2)]
   \<and> filter (evaluated (week_features 1 two_class_week) (week_labels 1 two_class_week)) [0..<4]
       = [1, 2, 3]
   \<and> two_class_week \<noteq> []
   \<and> lookup_clf
        (map (\<lambda>(i, f, l). (tx_count f, activity_span f))
           (train_rows (week_features 1 two_class_week) (week_labels 1 two_class_week) 1))
        (map (\<lambda>(i, f, l). l)
           (train_rows (week_features 1 two_class_week) (week_labels 1 two_class_week) 1))
       \<noteq> Inl IndexError"
proof -
  note th = backtest_evaluated_indices [of lookup_clf 1 20 two_class_week]
  have ne: "two_class_week \<noteq> []"
    by code_simp
  have "map fst [(1::nat, 1 / 2 :: rat), (2, 1 / 2), (3, 1 / 2)] =
      (if two_class_week = [] then []
       else filter (evaluated (week_features 1 two_class_week) (week_labels 1 two_class_week)) [0..<4])"
    using th backtest_two_class_week by blast
  with ne have e: "filter (evaluated (week_features 1 two_class_week) (week_labels 1 two_class_week)) [0..<4]
      = [1, 2, 3]"
    by simp
  have "\<exists>rs. backtest_one_week lookup_clf 1 20 two_class_week = Inr rs"
    using backtest_two_class_week by blast
  with th ne have "\<forall>t \<in> set (filter (evaluated (week_features 1 two_class_week)
                                  (week_labels 1 two_class_week)) [0..<4]).
         \<exists>predict.
           lookup_clf (map (\<lambda>(i, f, l). (tx_count f, activity_span f))
                  (train_rows (week_features 1 two_class_week) (week_labels 1 two_class_week) t))
               (map (\<lambda>(i, f, l). l)
                  (train_rows (week_features 1 two_class_week) (week_labels 1 two_class_week) t))
             = Inr predict"
    by blast
  then have "\<exists>predict.
           lookup_clf (map (\<lambda>(i, f, l). (tx_count f, activity_span f))
                  (train_rows (week_features 1 two_class_week) (week_labels 1 two_class_week) 1))
               (map (\<lambda>(i, f, l). l)
                  (train_rows (week_features 1 two_class_week) (week_labels 1 two_class_week) 1))
             = Inr predict"
    unfolding e by simp
  then have c: "lookup_clf
        (map (\<lambda>(i, f, l). (tx_count f, activity_span f))
           (train_rows (week_features 1 two_class_week) (week_labels 1 two_class_week) 1))
        (map (\<lambda>(i, f, l). l)
           (train_rows (week_features 1 two_class_week) (week_labels 1 two_class_week) 1))
       \<noteq> Inl IndexError"
    by auto
  from backtest_two_class_week e ne c show ?thesis
    by blast
qed

section \<open>Training labels and the test segment\<close>


section \<open>How many contracts the 0.9 quantile labels\<close>

lemma length_filter_sort: "length (filter P (sort xs)) = length (filter P xs)"
proof -
  have "size (filter_mset P (mset (sort xs))) = size (filter_mset P (mset xs))"
    by simp
  then show ?thesis
    by (simp only: mset_filter [symmetric] size_mset)
qed

lemma sorted_filter_ge_drop:
  fixes s :: "rat list"
  assumes "sorted s" and "m < length s" and "t \<le> s ! m"
  shows "length s - m \<le> length (filter (\<lambda>x. t \<le> x) s)"
proof -
  have all: "\<forall>x \<in> set (drop m s). t \<le> x"
  proof
    fix x
    assume "x \<in> set (drop m s)"
    then obtain i where i: "i < length (drop m s)" and x: "x = drop m s ! i"
      by (auto simp: in_set_conv_nth)
    from i have lt: "m + i < length s"
      by simp
    with x have "x = s ! (m + i)"
      by simp
    moreover have "s ! m \<le> s ! (m + i)"
      using assms(1) lt by (intro sorted_nth_mono) simp_all
    ultimately show "t \<le> x"
      using assms(3) by simp
  qed
  have "filter (\<lambda>x. t \<le> x) s =
      filter (\<lambda>x. t \<le> x) (take m s) @ filter (\<lambda>x. t \<le> x) (drop m s)"
    by (simp only: filter_append [symmetric] append_take_drop_id)
  moreover have "filter (\<lambda>x. t \<le> x) (drop m s) = drop m s"
    using all by simp
  ultimately show ?thesis
    by simp
qed



lemma sorted_filter_ge_take:
  fixes s :: "rat list"
  assumes "m \<le> length s" and "\<forall>i < m. s ! i < t"
  shows "length (filter (\<lambda>x. t \<le> x) s) \<le> length s - m"
proof -
  have "\<forall>x \<in> set (take m s). \<not> t \<le> x"
  proof
    fix x
    assume "x \<in> set (take m s)"
    then obtain i where i: "i < length (take m s)" and x: "x = take m s ! i"
      by (auto simp: in_set_conv_nth)
    from i have "i < m"
      by simp
    with x assms(2) show "\<not> t \<le> x"
      by (simp add: not_le)
  qed
  then have e: "filter (\<lambda>x. t \<le> x) (take m s) = []"
    by (simp add: filter_empty_conv)
  have "filter (\<lambda>x. t \<le> x) s =
      filter (\<lambda>x. t \<le> x) (take m s) @ filter (\<lambda>x. t \<le> x) (drop m s)"
    by (simp only: filter_append [symmetric] append_take_drop_id)
  then have "length (filter (\<lambda>x. t \<le> x) s) = length (filter (\<lambda>x. t \<le> x) (drop m s))"
    using e by simp
  also have "\<dots> \<le> length (drop m s)"
    by (rule length_filter_le)
  finally show ?thesis
    by simp
qed

text \<open>
  Where the threshold lies in the sorted values: with \<open>c\<close> the ceiling of the virtual
  index \<open>q * (n - 1)\<close>, the threshold is at most the value at position \<open>c\<close>, and, when the
  values are pairwise different, above every value before position \<open>c\<close>.
\<close>

lemma quantile_position:
  assumes ne: "xs \<noteq> []" and q0: "0 \<le> q" and q1: "q \<le> 1" and qt: "quantile xs q = Some t"
  shows "nat \<lceil>q * of_nat (length xs - 1)\<rceil> < length xs"
    and "t \<le> sort xs ! nat \<lceil>q * of_nat (length xs - 1)\<rceil>"
    and "distinct xs \<Longrightarrow> \<forall>i < nat \<lceil>q * of_nat (length xs - 1)\<rceil>. sort xs ! i < t"
proof -
  define n where "n = length xs"
  define s where "s = sort xs"
  define pos :: rat where "pos = q * of_nat (n - 1)"
  define lo where "lo = nat \<lfloor>pos\<rfloor>"
  define hi where "hi = min (lo + 1) (n - 1)"
  define frac where "frac = pos - of_int \<lfloor>pos\<rfloor>"
  define c where "c = nat \<lceil>pos\<rceil>"
  have t: "t = s ! lo + (s ! hi - s ! lo) * frac"
    using qt ne by (simp add: quantile_def Let_def n_def s_def pos_def lo_def hi_def frac_def)
  have npos: "0 < n"
    using ne by (simp add: n_def)
  have len: "length s = n" and srt: "sorted s"
    by (simp_all add: s_def n_def)
  have pos0: "0 \<le> pos"
    using q0 by (simp add: pos_def)
  have pos1: "pos \<le> of_nat (n - 1)"
  proof -
    have "q * of_nat (n - 1) \<le> 1 * of_nat (n - 1)"
      using q1 by (intro mult_right_mono) simp_all
    then show ?thesis by (simp add: pos_def)
  qed
  have fl0: "0 \<le> \<lfloor>pos\<rfloor>"
    using pos0 by simp
  have fl1: "\<lfloor>pos\<rfloor> \<le> int (n - 1)"
  proof -
    have "\<lfloor>pos\<rfloor> \<le> \<lfloor>of_nat (n - 1) :: rat\<rfloor>"
      using pos1 by (rule floor_mono)
    then show ?thesis by simp
  qed
  have lo_le: "lo \<le> n - 1"
    using fl0 fl1 by (simp add: lo_def)
  have lo_eq: "(of_nat lo :: rat) = of_int \<lfloor>pos\<rfloor>"
    using fl0 by (simp add: lo_def)
  have frac0: "0 \<le> frac" and frac1: "frac < 1"
    unfolding frac_def by linarith+
  have main: "c < n \<and> t \<le> s ! c \<and> (distinct xs \<longrightarrow> (\<forall>i < c. s ! i < t))"
  proof (cases "frac = 0")
    case True
    then have p: "pos = of_int \<lfloor>pos\<rfloor>"
      by (simp add: frac_def)
    have "\<lceil>pos\<rceil> = \<lfloor>pos\<rfloor>"
      using p by (simp add: ceiling_altdef)
    then have c: "c = lo"
      by (simp add: c_def lo_def)
    have tl: "t = s ! lo"
      using t True by simp
    have lt: "lo < n"
      using lo_le npos by simp
    have "\<forall>i < lo. s ! i < t" if d: "distinct xs"
    proof (intro allI impI)
      fix i
      assume i: "i < lo"
      have ds: "distinct s"
        using d by (simp add: s_def)
      have "s ! i \<le> s ! lo"
        using srt i lt len by (intro sorted_nth_mono) simp_all
      moreover have "s ! i \<noteq> s ! lo"
        using ds i lt len by (simp add: nth_eq_iff_index_eq)
      ultimately show "s ! i < t"
        using tl by simp
    qed
    with c tl lt show ?thesis
      by simp
  next
    case False
    with frac0 have fpos: "0 < frac"
      by simp
    then have ne_int: "pos \<noteq> of_int \<lfloor>pos\<rfloor>"
      by (simp add: frac_def)
    then have ceil: "\<lceil>pos\<rceil> = \<lfloor>pos\<rfloor> + 1"
      by (simp add: ceiling_altdef)
    then have c: "c = lo + 1"
      using fl0 by (simp add: c_def lo_def nat_add_distrib)
    have "of_int \<lfloor>pos\<rfloor> < pos"
      using fpos by (simp add: frac_def)
    with pos1 have "(of_int \<lfloor>pos\<rfloor> :: rat) < of_int (int (n - 1))"
      by simp
    then have "\<lfloor>pos\<rfloor> < int (n - 1)"
      by (simp only: of_int_less_iff)
    moreover have "int lo = \<lfloor>pos\<rfloor>"
      using fl0 by (simp add: lo_def)
    ultimately have lt: "lo + 1 < n"
      by linarith
    then have hi: "hi = lo + 1"
      by (simp add: hi_def)
    have mono: "s ! lo \<le> s ! hi"
      using srt lt len hi by (intro sorted_nth_mono) simp_all
    have up: "t \<le> s ! hi"
    proof -
      have "(s ! hi - s ! lo) * frac \<le> (s ! hi - s ! lo) * 1"
        using mono frac1 by (intro mult_left_mono) simp_all
      then show ?thesis
        using t by simp
    qed
    have "\<forall>i < lo + 1. s ! i < t" if d: "distinct xs"
    proof (intro allI impI)
      fix i
      assume i: "i < lo + 1"
      have ds: "distinct s"
        using d by (simp add: s_def)
      have "s ! lo \<noteq> s ! hi"
        using ds lt len hi by (simp add: nth_eq_iff_index_eq)
      with mono have "0 < s ! hi - s ! lo"
        by simp
      then have "0 < (s ! hi - s ! lo) * frac"
        using fpos by (rule mult_pos_pos)
      then have "s ! lo < t"
        using t by simp
      moreover have "s ! i \<le> s ! lo"
        using srt i lt len by (intro sorted_nth_mono) simp_all
      ultimately show "s ! i < t"
        by simp
    qed
    with c up hi lt show ?thesis
      by simp
  qed
  show "nat \<lceil>q * of_nat (length xs - 1)\<rceil> < length xs"
    using main unfolding c_def pos_def n_def s_def by blast
  show "t \<le> sort xs ! nat \<lceil>q * of_nat (length xs - 1)\<rceil>"
    using main unfolding c_def pos_def n_def s_def by blast
  show "distinct xs \<Longrightarrow> \<forall>i < nat \<lceil>q * of_nat (length xs - 1)\<rceil>. sort xs ! i < t"
    using main unfolding c_def pos_def n_def s_def by blast
qed

text \<open>How many values reach the threshold.\<close>

lemma quantile_count:
  assumes ne: "xs \<noteq> []" and q0: "0 \<le> q" and q1: "q \<le> 1" and qt: "quantile xs q = Some t"
  shows "length xs - nat \<lceil>q * of_nat (length xs - 1)\<rceil> \<le> length (filter (\<lambda>x. t \<le> x) xs)"
    and "distinct xs \<Longrightarrow>
           length (filter (\<lambda>x. t \<le> x) xs) = length xs - nat \<lceil>q * of_nat (length xs - 1)\<rceil>"
proof -
  define c where "c = nat \<lceil>q * of_nat (length xs - 1)\<rceil>"
  have cnt: "length (filter (\<lambda>x. t \<le> x) xs) = length (filter (\<lambda>x. t \<le> x) (sort xs))"
    by (simp add: length_filter_sort)
  have c: "c < length (sort xs)"
    using quantile_position(1) [OF ne q0 q1 qt] unfolding c_def by (simp only: length_sort)
  have le: "t \<le> sort xs ! c"
    using quantile_position(2) [OF ne q0 q1 qt] unfolding c_def .
  have low: "length (sort xs) - c \<le> length (filter (\<lambda>x. t \<le> x) (sort xs))"
    by (rule sorted_filter_ge_drop [OF _ c le]) simp
  then have l': "length xs - c \<le> length (filter (\<lambda>x. t \<le> x) xs)"
    by (simp only: cnt length_sort)
  then show "length xs - nat \<lceil>q * of_nat (length xs - 1)\<rceil> \<le> length (filter (\<lambda>x. t \<le> x) xs)"
    unfolding c_def .
  show "length (filter (\<lambda>x. t \<le> x) xs) = length xs - nat \<lceil>q * of_nat (length xs - 1)\<rceil>"
    if d: "distinct xs"
  proof -
    have "\<forall>i < c. sort xs ! i < t"
      using quantile_position(3) [OF ne q0 q1 qt d] unfolding c_def .
    then have "length (filter (\<lambda>x. t \<le> x) (sort xs)) \<le> length (sort xs) - c"
      using c by (intro sorted_filter_ge_take) simp_all
    then have "length (filter (\<lambda>x. t \<le> x) xs) \<le> length xs - c"
      by (simp only: cnt length_sort)
    with l' have "length (filter (\<lambda>x. t \<le> x) xs) = length xs - c"
      by (rule order_antisym [rotated])
    then show ?thesis
      unfolding c_def .
  qed
qed

text \<open>The ceiling of a number of tenths.\<close>

lemma ceiling_tenths:
  "k * m \<le> 10 * nat \<lceil>of_nat k / 10 * (of_nat m :: rat)\<rceil>"
  "10 * nat \<lceil>of_nat k / 10 * (of_nat m :: rat)\<rceil> < k * m + 10"
proof -
  define pos :: rat where "pos = of_nat k / 10 * of_nat m"
  define c where "c = nat \<lceil>pos\<rceil>"
  have p0: "0 \<le> pos"
    by (simp add: pos_def)
  then have "0 \<le> \<lceil>pos\<rceil>"
    by simp
  then have ceq: "(of_nat c :: rat) = of_int \<lceil>pos\<rceil>"
    by (simp add: c_def)
  have ten: "10 * pos = of_nat (k * m)"
    by (simp add: pos_def)
  have "pos \<le> of_nat c"
    unfolding ceq by (rule le_of_int_ceiling)
  then have "(of_nat (k * m) :: rat) \<le> of_nat (10 * c)"
    using ten by simp
  then have a: "k * m \<le> 10 * c"
    by (simp only: of_nat_le_iff)
  have "of_nat c < pos + 1"
    unfolding ceq using ceiling_correct [of pos] by linarith
  then have "(of_nat (10 * c) :: rat) < of_nat (k * m + 10)"
    using ten by simp
  then have b: "10 * c < k * m + 10"
    by (simp only: of_nat_less_iff)
  from a show "k * m \<le> 10 * nat \<lceil>of_nat k / 10 * (of_nat m :: rat)\<rceil>"
    by (simp add: c_def pos_def)
  from b show "10 * nat \<lceil>of_nat k / 10 * (of_nat m :: rat)\<rceil> < k * m + 10"
    by (simp add: c_def pos_def)
qed


lemma eight_tenths_count:
  assumes "0 < n"
  shows "n \<le> 5 * (n - nat \<lceil>8 / 10 * (of_nat (n - 1) :: rat)\<rceil>)"
    and "5 * (n - nat \<lceil>8 / 10 * (of_nat (n - 1) :: rat)\<rceil>) \<le> n + 4"
proof -
  from assms obtain m where n: "n = Suc m"
    by (cases n) simp_all
  define c where "c = nat \<lceil>8 / 10 * (of_nat m :: rat)\<rceil>"
  have a: "8 * m \<le> 10 * c" and b: "10 * c < 8 * m + 10"
    using ceiling_tenths [of 8 m] by (simp_all add: c_def)
  from b have cm: "c \<le> m"
    by linarith
  then obtain d where d: "m = c + d"
    using le_Suc_ex by blast
  from b have b': "5 * c \<le> 4 * m + 4"
    by presburger
  have "Suc m \<le> 5 * (Suc m - c)" and "5 * (Suc m - c) \<le> Suc m + 4"
    using a b' unfolding d by simp_all
  then show "n \<le> 5 * (n - nat \<lceil>8 / 10 * (of_nat (n - 1) :: rat)\<rceil>)"
    and "5 * (n - nat \<lceil>8 / 10 * (of_nat (n - 1) :: rat)\<rceil>) \<le> n + 4"
    unfolding n c_def by simp_all
qed












section \<open>Percentage growth of a row\<close>

lemma growth_pct_value:
  "growth_pct cur fut = Some ((of_nat fut - of_nat cur) / (of_nat cur + 1) * 100)"
proof -
  have "(of_nat cur + 1 :: rat) \<noteq> 0"
    using of_nat_0_le_iff [of cur, where 'a = rat] by linarith
  then show ?thesis
    by (simp add: growth_pct_def pd_div_def)
qed

lemma finite_values_Some: "finite_values (map (\<lambda>x. Some (g x)) xs) = map g xs"
  by (induction xs) (simp_all add: finite_values_def)

lemma volume_growth_rows:
  "volume_growth cur hist =
     map (\<lambda>(c, v, f).
            \<lparr>g_contract = c, volume_1d_current = v, volume_future = f,
             volume_growth_pct = Some ((of_nat f - of_nat v) / (of_nat v + 1) * 100),
             label = ge_label ((of_nat f - of_nat v) / (of_nat v + 1) * 100)
               (quantile (map (\<lambda>(c, v, f). (of_nat f - of_nat v) / (of_nat v + 1) * 100)
                  (merge_left (group_size cur) (group_size hist))) (8 / 10))\<rparr>)
         (merge_left (group_size cur) (group_size hist))"
proof -
  have "map (\<lambda>(c, v, f). growth_pct v f) (merge_left (group_size cur) (group_size hist)) =
      map (\<lambda>x. Some ((\<lambda>(c, v, f). (of_nat f - of_nat v) / (of_nat v + 1) * 100) x))
        (merge_left (group_size cur) (group_size hist))"
    by (simp add: growth_pct_value case_prod_unfold)
  then show ?thesis
    unfolding volume_growth_def Let_def
    by (simp only: finite_values_Some) (simp add: growth_pct_value)
qed

lemma spec_growth_rows:
  "map spec_growth (volume_growth cur hist) =
     map (\<lambda>(c, v, f). (of_nat f - of_nat v) / (of_nat v + 1) * 100)
       (merge_left (group_size cur) (group_size hist))"
  unfolding volume_growth_rows by (simp add: spec_growth_def case_prod_unfold)

lemma volume_growth_row:
  assumes "r \<in> set (volume_growth cur hist)"
  shows "volume_growth_pct r = Some (spec_growth r)"
    and "label r = ge_label (spec_growth r)
           (quantile (map spec_growth (volume_growth cur hist)) (8 / 10))"
proof -
  from assms [unfolded volume_growth_rows set_map]
  obtain x where x: "x \<in> set (merge_left (group_size cur) (group_size hist))"
    and r: "r = (\<lambda>(c, v, f).
            \<lparr>g_contract = c, volume_1d_current = v, volume_future = f,
             volume_growth_pct = Some ((of_nat f - of_nat v) / (of_nat v + 1) * 100),
             label = ge_label ((of_nat f - of_nat v) / (of_nat v + 1) * 100)
               (quantile (map (\<lambda>(c, v, f). (of_nat f - of_nat v) / (of_nat v + 1) * 100)
                  (merge_left (group_size cur) (group_size hist))) (8 / 10))\<rparr>) x"
    by blast
  obtain c v f where cvf: "x = (c, v, f)"
    by (cases x)
  show "volume_growth_pct r = Some (spec_growth r)"
    unfolding r cvf by (simp add: spec_growth_def)
  show "label r = ge_label (spec_growth r)
           (quantile (map spec_growth (volume_growth cur hist)) (8 / 10))"
    unfolding spec_growth_rows unfolding r cvf by (simp add: spec_growth_def)
qed

lemma quantile_Some: "xs \<noteq> [] \<Longrightarrow> \<exists>t. quantile xs q = Some t"
  by (simp add: quantile_def Let_def)

section \<open>Edges of the token-flow graph\<close>

text \<open>
  C1. On the table \<open>two_pool_logs\<close> contract \<open>A\<close> outputs only \<open>Y\<close> and contract \<open>B\<close>
  inputs only \<open>Z\<close>, so no token flows from \<open>A\<close> to \<open>B\<close>; the program nevertheless creates
  the edge from \<open>A\<close> to \<open>B\<close> with weight 1, because it intersects the sets of all tokens
  that the two contracts touch (\<open>X\<close> is an input of \<open>A\<close> and an output of \<open>B\<close>).
\<close>

theorem edge_without_token_flow:
  "token_flow_edges (contract_tokens two_pool_logs) = [(''A'', ''B'', 1), (''B'', ''A'', 1)]
   \<and> observed_outputs two_pool_logs ''A'' = {''Y''}
   \<and> observed_inputs two_pool_logs ''B'' = {''Z''}
   \<and> observed_outputs two_pool_logs ''A'' \<inter> observed_inputs two_pool_logs ''B'' = {}"
  by code_simp

section \<open>Fallbacks of the centrality computation\<close>

lemma try_except_Inr: "try_except body (Inr v) = Inr (case body of Inl e \<Rightarrow> v | Inr x \<Rightarrow> x)"
  by (simp add: try_except_def split: sum.splits)

text \<open>
  C2, as claimed, fails: when the betweenness algorithm raises on the graph of
  \<open>two_pool_logs\<close>, node \<open>B\<close> gets betweenness 0, although its in-degree centrality is 1.
\<close>

theorem failed_betweenness_is_zero:
  "betweenness_at (calculate_contract_centrality failing_algorithm failing_algorithm
       failing_algorithm failing_algorithm two_pool_logs) ''B'' = Some 0
   \<and> in_degree_centrality (token_flow_graph two_pool_logs) ''B'' = Some 1"
  by code_simp

text \<open>
  C2, amended. \<^verbatim>\<open>calculate_contract_centrality\<close> always returns, whatever the four
  algorithms do. Betweenness and closeness are the results of their algorithms, or 0 for
  every node of the graph when the algorithm raises. Eigenvector centrality is the result
  of the power iteration; when that raises, the result of the alternative eigen-solver;
  when that raises too, the in-degree centrality of the graph.
\<close>

theorem centrality_fallback_order:
  "calculate_contract_centrality nx_betweenness_centrality nx_closeness_centrality
       nx_power_iteration nx_eigenvector_centrality_numpy logs_df =
     Inr (case nx_betweenness_centrality (token_flow_graph logs_df) of
            Inl e \<Rightarrow> zero_centrality (token_flow_graph logs_df) | Inr b \<Rightarrow> b,
          case nx_closeness_centrality (token_flow_graph logs_df) of
            Inl e \<Rightarrow> zero_centrality (token_flow_graph logs_df) | Inr c \<Rightarrow> c,
          case nx_power_iteration (token_flow_graph logs_df) of
            Inl e \<Rightarrow>
              (case nx_eigenvector_centrality_numpy (token_flow_graph logs_df) of
                 Inl e' \<Rightarrow> in_degree_centrality (token_flow_graph logs_df)
               | Inr v \<Rightarrow> v)
          | Inr v \<Rightarrow> v,
          token_flow_graph logs_df)"
  unfolding calculate_contract_centrality_def token_flow_graph_def Let_def try_except_Inr
  by (simp split: sum.splits)

section \<open>Centrality of contracts outside the graph\<close>

lemma dom_constant_centrality: "dom (map_of (map (\<lambda>n. (n, f n)) ns)) = set ns"
  by (simp add: dom_map_of_conv_image_fst image_image)

lemma dom_zero_centrality: "dom (zero_centrality G) = set (nodes G)"
  unfolding zero_centrality_def by (rule dom_constant_centrality)

lemma dom_in_degree_centrality: "dom (in_degree_centrality G) = set (nodes G)"
  unfolding in_degree_centrality_def by (simp add: dom_constant_centrality)

lemma map_fillna_absent: "c \<notin> dom d \<Longrightarrow> map_fillna d c = 0"
  by (auto simp add: map_fillna_def split: option.splits)

lemma calculate_contract_centrality_keys:
  assumes b: "\<And>G m. nx_betweenness_centrality G = Inr m \<Longrightarrow> dom m \<subseteq> set (nodes G)"
    and c: "\<And>G m. nx_closeness_centrality G = Inr m \<Longrightarrow> dom m \<subseteq> set (nodes G)"
    and p: "\<And>G m. nx_power_iteration G = Inr m \<Longrightarrow> dom m \<subseteq> set (nodes G)"
    and n: "\<And>G m. nx_eigenvector_centrality_numpy G = Inr m \<Longrightarrow> dom m \<subseteq> set (nodes G)"
  shows "\<exists>bt cl ev. calculate_contract_centrality nx_betweenness_centrality nx_closeness_centrality
            nx_power_iteration nx_eigenvector_centrality_numpy logs_df
              = Inr (bt, cl, ev, token_flow_graph logs_df)
          \<and> dom bt \<subseteq> set (nodes (token_flow_graph logs_df))
          \<and> dom cl \<subseteq> set (nodes (token_flow_graph logs_df))
          \<and> dom ev \<subseteq> set (nodes (token_flow_graph logs_df))"
proof -
  define G where "G = token_flow_graph logs_df"
  define bt where "bt = (case nx_betweenness_centrality G of Inl e \<Rightarrow> zero_centrality G | Inr m \<Rightarrow> m)"
  define cl where "cl = (case nx_closeness_centrality G of Inl e \<Rightarrow> zero_centrality G | Inr m \<Rightarrow> m)"
  define ev where "ev = (case nx_power_iteration G of
      Inl e \<Rightarrow> (case nx_eigenvector_centrality_numpy G of
                  Inl e' \<Rightarrow> in_degree_centrality G | Inr v \<Rightarrow> v)
    | Inr v \<Rightarrow> v)"
  have r: "calculate_contract_centrality nx_betweenness_centrality nx_closeness_centrality
            nx_power_iteration nx_eigenvector_centrality_numpy logs_df = Inr (bt, cl, ev, G)"
    unfolding calculate_contract_centrality_def token_flow_graph_def Let_def try_except_Inr
      bt_def cl_def ev_def G_def
    by (simp split: sum.splits)
  have "dom bt \<subseteq> set (nodes G)"
    unfolding bt_def using b [of G] by (cases "nx_betweenness_centrality G") (simp_all add: dom_zero_centrality)
  moreover have "dom cl \<subseteq> set (nodes G)"
    unfolding cl_def using c [of G] by (cases "nx_closeness_centrality G") (simp_all add: dom_zero_centrality)
  moreover have "dom ev \<subseteq> set (nodes G)"
  proof (cases "nx_power_iteration G")
    case (Inr v)
    then show ?thesis
      unfolding ev_def using p [of G v] by simp
  next
    case (Inl e)
    then show ?thesis
      unfolding ev_def using n [of G]
      by (cases "nx_eigenvector_centrality_numpy G") (simp_all add: dom_in_degree_centrality)
  qed
  ultimately show ?thesis
    using r unfolding G_def by blast
qed

text \<open>
  C8. Let the algorithms of the graph library return dictionaries whose keys are nodes of
  the graph they are given. Then the centrality columns are always produced, one row per
  contract of the feature table, and a contract that is no node of the token-flow graph has
  betweenness, closeness and eigenvector centrality 0.
\<close>

theorem absent_contract_centrality_zero:
  assumes "\<And>G m. nx_betweenness_centrality G = Inr m \<Longrightarrow> dom m \<subseteq> set (nodes G)"
    and "\<And>G m. nx_closeness_centrality G = Inr m \<Longrightarrow> dom m \<subseteq> set (nodes G)"
    and "\<And>G m. nx_power_iteration G = Inr m \<Longrightarrow> dom m \<subseteq> set (nodes G)"
    and "\<And>G m. nx_eigenvector_centrality_numpy G = Inr m \<Longrightarrow> dom m \<subseteq> set (nodes G)"
  shows "\<exists>rows. centrality_features nx_betweenness_centrality nx_closeness_centrality
            nx_power_iteration nx_eigenvector_centrality_numpy logs_df = Inr rows
          \<and> map cr_contract rows = map contract (features_from_logs_df logs_df)
          \<and> (\<forall>r \<in> set rows. cr_contract r \<notin> set (nodes (token_flow_graph logs_df)) \<longrightarrow>
                betweenness_centrality r = 0 \<and> closeness_centrality r = 0
                \<and> eigenvector_centrality r = 0)"
proof -
  from calculate_contract_centrality_keys [of nx_betweenness_centrality nx_closeness_centrality
      nx_power_iteration nx_eigenvector_centrality_numpy logs_df, OF assms]
  obtain bt cl ev where
    r: "calculate_contract_centrality nx_betweenness_centrality nx_closeness_centrality
          nx_power_iteration nx_eigenvector_centrality_numpy logs_df
            = Inr (bt, cl, ev, token_flow_graph logs_df)"
    and bt: "dom bt \<subseteq> set (nodes (token_flow_graph logs_df))"
    and cl: "dom cl \<subseteq> set (nodes (token_flow_graph logs_df))"
    and ev: "dom ev \<subseteq> set (nodes (token_flow_graph logs_df))"
    by blast
  define rows where "rows = map (\<lambda>f. \<lparr>cr_contract = contract f,
                         betweenness_centrality = map_fillna bt (contract f),
                         closeness_centrality = map_fillna cl (contract f),
                         eigenvector_centrality = map_fillna ev (contract f)\<rparr>)
                 (features_from_logs_df logs_df)"
  have 1: "centrality_features nx_betweenness_centrality nx_closeness_centrality
            nx_power_iteration nx_eigenvector_centrality_numpy logs_df = Inr rows"
    unfolding centrality_features_def r rows_def by simp
  have 2: "map cr_contract rows = map contract (features_from_logs_df logs_df)"
    unfolding rows_def by (simp add: comp_def)
  have 3: "betweenness_centrality r = 0 \<and> closeness_centrality r = 0 \<and> eigenvector_centrality r = 0"
    if "r \<in> set rows" and "cr_contract r \<notin> set (nodes (token_flow_graph logs_df))" for r
  proof -
    from that(1) have "\<exists>f :: feature_row. r = \<lparr>cr_contract = contract f,
                         betweenness_centrality = map_fillna bt (contract f),
                         closeness_centrality = map_fillna cl (contract f),
                         eigenvector_centrality = map_fillna ev (contract f)\<rparr>"
      unfolding rows_def set_map image_iff by blast
    then obtain f :: feature_row where f: "r = \<lparr>cr_contract = contract f,
                         betweenness_centrality = map_fillna bt (contract f),
                         closeness_centrality = map_fillna cl (contract f),
                         eigenvector_centrality = map_fillna ev (contract f)\<rparr>"
      ..
    with that(2) have "contract f \<notin> set (nodes (token_flow_graph logs_df))"
      by simp
    with bt cl ev have "contract f \<notin> dom bt" "contract f \<notin> dom cl" "contract f \<notin> dom ev"
      by blast+
    then show ?thesis
      unfolding f by (simp add: map_fillna_absent)
  qed
  from 1 2 3 show ?thesis
    by blast
qed

lemma failing_algorithm_keys: "failing_algorithm G = Inr m \<Longrightarrow> dom m \<subseteq> set (nodes G)"
  by (simp add: failing_algorithm_def)

lemma unit_algorithm_keys:
  assumes "unit_algorithm G = Inr m"
  shows "dom m \<subseteq> set (nodes G)"
proof -
  from assms have "m = map_of (map (\<lambda>n. (n, 1)) (nodes G))"
    by (simp add: unit_algorithm_def)
  then show ?thesis
    by (simp add: dom_constant_centrality)
qed

lemma centrality_features_three_pools:
  "centrality_features failing_algorithm unit_algorithm failing_algorithm failing_algorithm
     three_pool_logs =
   Inr [\<lparr>cr_contract = ''A'', betweenness_centrality = 0, closeness_centrality = 1,
          eigenvector_centrality = 1\<rparr>,
        \<lparr>cr_contract = ''B'', betweenness_centrality = 0, closeness_centrality = 1,
          eigenvector_centrality = 1\<rparr>,
        \<lparr>cr_contract = ''C'', betweenness_centrality = 0, closeness_centrality = 0,
          eigenvector_centrality = 0\<rparr>]"
  by code_simp

lemma nodes_three_pools: "nodes (token_flow_graph three_pool_logs) = [''A'', ''B'']"
  by code_simp

theorem absent_contract_centrality_zero_witness:
  "nodes (token_flow_graph three_pool_logs) = [''A'', ''B'']
   \<and> centrality_features failing_algorithm unit_algorithm failing_algorithm failing_algorithm
       three_pool_logs =
     Inr [\<lparr>cr_contract = ''A'', betweenness_centrality = 0, closeness_centrality = 1,
            eigenvector_centrality = 1\<rparr>,
          \<lparr>cr_contract = ''B'', betweenness_centrality = 0, closeness_centrality = 1,
            eigenvector_centrality = 1\<rparr>,
          \<lparr>cr_contract = ''C'', betweenness_centrality = 0, closeness_centrality = 0,
            eigenvector_centrality = 0\<rparr>]
   \<and> list_all (\<lambda>r. cr_contract r \<in> set [''A'', ''B'']
          \<or> (betweenness_centrality r = 0 \<and> closeness_centrality r = 0 \<and> eigenvector_centrality r = 0))
       [\<lparr>cr_contract = ''A'', betweenness_centrality = 0, closeness_centrality = 1,
            eigenvector_centrality = 1\<rparr>,
          \<lparr>cr_contract = ''B'', betweenness_centrality = 0, closeness_centrality = 1,
            eigenvector_centrality = 1\<rparr>,
          \<lparr>cr_contract = ''C'', betweenness_centrality = 0, closeness_centrality = 0,
            eigenvector_centrality = 0\<rparr>]"
proof -
  from absent_contract_centrality_zero [of failing_algorithm unit_algorithm failing_algorithm
      failing_algorithm three_pool_logs,
      OF failing_algorithm_keys unit_algorithm_keys failing_algorithm_keys failing_algorithm_keys]
  have "list_all (\<lambda>r. cr_contract r \<in> set [''A'', ''B'']
          \<or> (betweenness_centrality r = 0 \<and> closeness_centrality r = 0 \<and> eigenvector_centrality r = 0))
       [\<lparr>cr_contract = ''A'', betweenness_centrality = 0, closeness_centrality = 1,
            eigenvector_centrality = 1\<rparr>,
          \<lparr>cr_contract = ''B'', betweenness_centrality = 0, closeness_centrality = 1,
            eigenvector_centrality = 1\<rparr>,
          \<lparr>cr_contract = ''C'', betweenness_centrality = 0, closeness_centrality = 0,
            eigenvector_centrality = 0\<rparr>]"
    unfolding centrality_features_three_pools nodes_three_pools
    by (simp add: list_all_iff)
  with centrality_features_three_pools nodes_three_pools show ?thesis
    by blast
qed

section \<open>Only pools of allowed tokens pass the filter\<close>

lemma check_token_step:
  "check_token symbol_call (syms, found, valid) t =
     (if get_token_symbol symbol_call t \<in> ALLOWED_TOKENS
      then (syms @ [get_token_symbol symbol_call t], found @ [get_token_symbol symbol_call t], valid)
      else (syms @ [get_token_symbol symbol_call t], found, False))"
  by (simp add: check_token_def Let_def)

lemma check_tokens_fold:
  "foldl (check_token symbol_call) (syms, found, valid) tokens =
     (syms @ map (get_token_symbol symbol_call) tokens,
      found @ filter (\<lambda>s. s \<in> ALLOWED_TOKENS) (map (get_token_symbol symbol_call) tokens),
      valid \<and> list_all (\<lambda>t. get_token_symbol symbol_call t \<in> ALLOWED_TOKENS) tokens)"
proof (induction tokens arbitrary: syms found valid)
  case Nil
  show ?case by simp
next
  case (Cons t tokens)
  show ?case
    by (cases "get_token_symbol symbol_call t \<in> ALLOWED_TOKENS")
      (simp_all add: check_token_step Cons.IH)
qed

lemma check_tokens_valid:
  assumes "check_tokens symbol_call tokens = (syms, found, True)"
  shows "\<forall>t \<in> set tokens. get_token_symbol symbol_call t \<in> ALLOWED_TOKENS"
  using assms unfolding check_tokens_def check_tokens_fold by (simp add: list_all_iff)

lemma set_all_tokens:
  "set (all_tokens (rows_of c logs_df)) = observed_tokens logs_df c"
  by (simp add: all_tokens_def observed_tokens_def observed_inputs_def observed_outputs_def)

lemma filter_loop_allowed:
  assumes "\<forall>p \<in> set filtered_pools. \<forall>t \<in> observed_tokens logs_1d_df (pool_contract p).
             get_token_symbol symbol_call t \<in> ALLOWED_TOKENS"
  shows "\<forall>p \<in> set (filter_loop symbol_call top_k logs_1d_df rows filtered_pools).
           \<forall>t \<in> observed_tokens logs_1d_df (pool_contract p).
             get_token_symbol symbol_call t \<in> ALLOWED_TOKENS"
  using assms
proof (induction rows arbitrary: filtered_pools)
  case Nil
  then show ?case by simp
next
  case (Cons row rest)
  define contract_logs where "contract_logs = rows_of (contract (fst row)) logs_1d_df"
  obtain syms found valid where
    ck: "check_tokens symbol_call (all_tokens contract_logs) = (syms, found, valid)"
    by (cases "check_tokens symbol_call (all_tokens contract_logs)")
  define appended where "appended = filtered_pools @
      [\<lparr>pool_contract = contract (fst row), allowed_tokens = found,
        pool_all_tokens = syms, prob = snd row\<rparr>]"
  show ?case
  proof (cases "contract_logs \<noteq> [] \<and> 1 \<le> length (all_tokens contract_logs)
                  \<and> valid \<and> length found = length syms")
    case False
    then have "filter_loop symbol_call top_k logs_1d_df (row # rest) filtered_pools
        = filter_loop symbol_call top_k logs_1d_df rest filtered_pools"
      using ck unfolding contract_logs_def by (auto simp add: Let_def)
    then show ?thesis
      using Cons.IH [OF Cons.prems] by simp
  next
    case True
    then have valid: "valid" by simp
    from ck valid have "\<forall>t \<in> set (all_tokens contract_logs).
        get_token_symbol symbol_call t \<in> ALLOWED_TOKENS"
      using check_tokens_valid [of symbol_call "all_tokens contract_logs" syms found] by simp
    then have new: "\<forall>t \<in> observed_tokens logs_1d_df (contract (fst row)).
        get_token_symbol symbol_call t \<in> ALLOWED_TOKENS"
      unfolding contract_logs_def set_all_tokens .
    have inv: "\<forall>p \<in> set appended. \<forall>t \<in> observed_tokens logs_1d_df (pool_contract p).
        get_token_symbol symbol_call t \<in> ALLOWED_TOKENS"
      unfolding appended_def using Cons.prems new by simp
    have "filter_loop symbol_call top_k logs_1d_df (row # rest) filtered_pools
        = (if top_k \<le> int (length appended) then appended
           else filter_loop symbol_call top_k logs_1d_df rest appended)"
      using True ck unfolding contract_logs_def appended_def by (simp add: Let_def)
    then show ?thesis
      using inv Cons.IH [OF inv] by simp
  qed
qed

text \<open>
  C5. With the filter on, in \<^verbatim>\<open>infer_top_multi_timeframe\<close> and in \<^verbatim>\<open>infer_top\<close>, every
  token observed for a contract of the filtered output resolves to a symbol of the
  allow-list; so a contract with one observed token whose symbol is not in the list is
  not in the output.
\<close>

theorem filtered_pools_only_allowed_tokens:
  "(\<forall>p \<in> set (infer_top_multi_timeframe_filtered symbol_call top_k logs_1d_df current_features)
         \<union> set (infer_top_filtered symbol_call top_k logs_1d_df current_features).
      \<forall>t \<in> observed_tokens logs_1d_df (pool_contract p).
        get_token_symbol symbol_call t \<in> ALLOWED_TOKENS)
   \<and> (\<forall>c. (\<exists>t \<in> observed_tokens logs_1d_df c. get_token_symbol symbol_call t \<notin> ALLOWED_TOKENS) \<longrightarrow>
          c \<notin> pool_contract `
                (set (infer_top_multi_timeframe_filtered symbol_call top_k logs_1d_df current_features)
                 \<union> set (infer_top_filtered symbol_call top_k logs_1d_df current_features)))"
proof -
  have a: "\<forall>p \<in> set (infer_top_multi_timeframe_filtered symbol_call top_k logs_1d_df current_features).
      \<forall>t \<in> observed_tokens logs_1d_df (pool_contract p).
        get_token_symbol symbol_call t \<in> ALLOWED_TOKENS"
    unfolding infer_top_multi_timeframe_filtered_def by (rule filter_loop_allowed) simp
  have b: "\<forall>p \<in> set (infer_top_filtered symbol_call top_k logs_1d_df current_features).
      \<forall>t \<in> observed_tokens logs_1d_df (pool_contract p).
        get_token_symbol symbol_call t \<in> ALLOWED_TOKENS"
    unfolding infer_top_filtered_def by (rule filter_loop_allowed) simp
  from a b show ?thesis
    by blast
qed

lemma stable_pools_multi:
  "infer_top_multi_timeframe_filtered no_symbol 5 stable_pool_logs stable_pool_scores =
     [\<lparr>pool_contract = ''P1'', allowed_tokens = [''USDC'', ''DAI''],
       pool_all_tokens = [''USDC'', ''DAI''], prob = 4 / 5\<rparr>]"
  by code_simp

lemma stable_pools_single:
  "infer_top_filtered no_symbol 5 stable_pool_logs stable_pool_scores =
     [\<lparr>pool_contract = ''P1'', allowed_tokens = [''USDC'', ''DAI''],
       pool_all_tokens = [''USDC'', ''DAI''], prob = 4 / 5\<rparr>]"
  by code_simp

lemma stable_pools_symbols:
  "map (get_token_symbol no_symbol) (all_tokens (rows_of ''P2'' stable_pool_logs))
     = [''USDC'', ''0x000000...'']
   \<and> map (get_token_symbol no_symbol) (all_tokens (rows_of ''P1'' stable_pool_logs))
     = [''USDC'', ''DAI'']"
  by code_simp

theorem filtered_pools_only_allowed_tokens_witness:
  "infer_top_multi_timeframe_filtered no_symbol 5 stable_pool_logs stable_pool_scores =
     [\<lparr>pool_contract = ''P1'', allowed_tokens = [''USDC'', ''DAI''],
       pool_all_tokens = [''USDC'', ''DAI''], prob = 4 / 5\<rparr>]
   \<and> infer_top_filtered no_symbol 5 stable_pool_logs stable_pool_scores =
     [\<lparr>pool_contract = ''P1'', allowed_tokens = [''USDC'', ''DAI''],
       pool_all_tokens = [''USDC'', ''DAI''], prob = 4 / 5\<rparr>]
   \<and> map (get_token_symbol no_symbol) (all_tokens (rows_of ''P2'' stable_pool_logs))
     = [''USDC'', ''0x000000...'']
   \<and> list_all (\<lambda>t. get_token_symbol no_symbol t \<in> ALLOWED_TOKENS)
       (all_tokens (rows_of ''P1'' stable_pool_logs))"
proof -
  have "\<forall>t \<in> observed_tokens stable_pool_logs ''P1''. get_token_symbol no_symbol t \<in> ALLOWED_TOKENS"
    using filtered_pools_only_allowed_tokens [of no_symbol 5 stable_pool_logs stable_pool_scores]
    unfolding stable_pools_multi by simp
  then have "list_all (\<lambda>t. get_token_symbol no_symbol t \<in> ALLOWED_TOKENS)
       (all_tokens (rows_of ''P1'' stable_pool_logs))"
    unfolding set_all_tokens [symmetric] by (simp add: list_all_iff)
  with stable_pools_multi stable_pools_single stable_pools_symbols show ?thesis
    by blast
qed

section \<open>Rows and labels of the growth table\<close>

lemma set_group_keys: "set (group_keys xs) = set xs"
  by (induction xs rule: group_keys.induct) auto

lemma map_of_group_size:
  "(case map_of (group_size logs) c of None \<Rightarrow> 0 | Some f \<Rightarrow> f) = length (rows_of c logs)"
proof (cases "c \<in> set (map contract_address logs)")
  case True
  then have "c \<in> set (group_keys (map contract_address logs))"
    by (simp only: set_group_keys)
  then have "map_of (group_size logs) c = Some (length (rows_of c logs))"
    unfolding group_size_def by (simp add: map_of_map_restrict)
  then show ?thesis by simp
next
  case False
  then have "c \<notin> set (group_keys (map contract_address logs))"
    unfolding set_group_keys .
  then have "map_of (group_size logs) c = None"
    unfolding group_size_def by (simp add: map_of_map_restrict)
  moreover from False have "rows_of c logs = []"
    by (auto simp: rows_of_def filter_empty_conv)
  ultimately show ?thesis by simp
qed

lemma merge_left_rows:
  assumes "(c, v, f) \<in> set (merge_left (group_size cur) (group_size hist))"
  shows "c \<in> set (map contract_address cur)" and "v = length (rows_of c cur)"
    and "1 \<le> v" and "f = length (rows_of c hist)"
proof -
  from assms have cv: "(c, v) \<in> set (group_size cur)"
    and f: "f = (case map_of (group_size hist) c of None \<Rightarrow> 0 | Some f \<Rightarrow> f)"
    unfolding merge_left_def by auto
  from cv have k: "c \<in> set (group_keys (map contract_address cur))" and v: "v = length (rows_of c cur)"
    unfolding group_size_def by auto
  from k show c: "c \<in> set (map contract_address cur)"
    by (simp only: set_group_keys)
  from v show "v = length (rows_of c cur)" .
  from c have "rows_of c cur \<noteq> []"
    by (auto simp: rows_of_def filter_empty_conv)
  with v show "1 \<le> v"
    by (cases "rows_of c cur") simp_all
  from f show "f = length (rows_of c hist)"
    by (simp only: map_of_group_size)
qed

lemma volume_growth_row_counts:
  assumes "r \<in> set (volume_growth cur hist)"
  shows "g_contract r \<in> set (map contract_address cur)"
    and "volume_1d_current r = length (rows_of (g_contract r) cur)"
    and "1 \<le> volume_1d_current r"
    and "volume_future r = length (rows_of (g_contract r) hist)"
proof -
  from assms [unfolded volume_growth_rows set_map]
  obtain x where x: "x \<in> set (merge_left (group_size cur) (group_size hist))"
    and r: "r = (\<lambda>(c, v, f).
            \<lparr>g_contract = c, volume_1d_current = v, volume_future = f,
             volume_growth_pct = Some ((of_nat f - of_nat v) / (of_nat v + 1) * 100),
             label = ge_label ((of_nat f - of_nat v) / (of_nat v + 1) * 100)
               (quantile (map (\<lambda>(c, v, f). (of_nat f - of_nat v) / (of_nat v + 1) * 100)
                  (merge_left (group_size cur) (group_size hist))) (8 / 10))\<rparr>) x"
    by blast
  obtain c v f where cvf: "x = (c, v, f)"
    by (cases x)
  have g: "g_contract r = c" "volume_1d_current r = v" "volume_future r = f"
    unfolding r cvf by simp_all
  from x have m: "(c, v, f) \<in> set (merge_left (group_size cur) (group_size hist))"
    by (simp only: cvf)
  show "g_contract r \<in> set (map contract_address cur)"
    unfolding g by (rule merge_left_rows(1) [OF m])
  show "volume_1d_current r = length (rows_of (g_contract r) cur)"
    unfolding g by (rule merge_left_rows(2) [OF m])
  show "1 \<le> volume_1d_current r"
    unfolding g by (rule merge_left_rows(3) [OF m])
  show "volume_future r = length (rows_of (g_contract r) hist)"
    unfolding g by (rule merge_left_rows(4) [OF m])
qed

lemma growth_ones_threshold:
  assumes t: "quantile (map spec_growth (volume_growth cur hist)) (8 / 10) = Some t"
  shows "growth_ones (volume_growth cur hist)
       = length (filter (\<lambda>x. t \<le> x) (map spec_growth (volume_growth cur hist)))"
proof -
  have "filter (\<lambda>r. label r = 1) (volume_growth cur hist)
      = filter (\<lambda>r. t \<le> spec_growth r) (volume_growth cur hist)"
  proof (rule filter_cong [OF refl])
    fix r
    assume "r \<in> set (volume_growth cur hist)"
    from volume_growth_row(2) [OF this] have "label r = ge_label (spec_growth r) (Some t)"
      by (simp only: t)
    then show "(label r = 1) = (t \<le> spec_growth r)"
      by (simp add: ge_label_def)
  qed
  then show ?thesis
    unfolding growth_ones_def by (simp add: filter_map comp_def)
qed

lemma volume_growth_one_row:
  "volume_growth b_pool_logs week_logs =
     [\<lparr>g_contract = ''B'', volume_1d_current = 2, volume_future = 0,
       volume_growth_pct = Some (- 200 / 3), label = 1\<rparr>]"
  by code_simp

text \<open>
  C9 (as the spec words it) fails for a contract without current volume: contract \<open>A\<close>
  has seven transactions in the historical logs and none in the current logs, a baseline
  of 0, and the table of growth rates and labels has no row for it.
\<close>

theorem no_growth_without_baseline:
  "rows_of ''A'' b_pool_logs = []
   \<and> length (rows_of ''A'' week_logs) = 7
   \<and> map g_contract (volume_growth b_pool_logs week_logs) = [''B'']"
proof -
  have "rows_of ''A'' b_pool_logs = []"
    by code_simp
  moreover have "length (rows_of ''A'' week_logs) = 7"
    by code_simp
  ultimately show ?thesis
    unfolding volume_growth_one_row by simp
qed

text \<open>
  C9, amended. The growth table has a row exactly for the contracts of the current
  one-day logs (the merge keeps the contracts of the left table), so every row has a
  current volume of at least 1; its future volume is the number of its historical
  transactions, possibly 0. For every row the percentage growth is
  \<open>(future - current) / (current + 1) * 100\<close> with a denominator of at least 2, a finite
  number. The label of a row is 1 exactly when its growth reaches the 0.8 quantile of the
  growth of all rows: at least one fifth of the \<open>n\<close> rows have label 1, fewer than
  \<open>n / 5 + 1\<close> when no two rows have the same growth, and every row with label 1 has a
  larger growth than every row with label 0.
\<close>

theorem growth_label_rows:
  "set (map g_contract (volume_growth logs_1d_current_df logs_historical_df))
     = set (map contract_address logs_1d_current_df)
   \<and> (\<forall>r \<in> set (volume_growth logs_1d_current_df logs_historical_df).
        volume_1d_current r = length (rows_of (g_contract r) logs_1d_current_df)
        \<and> 1 \<le> volume_1d_current r
        \<and> volume_future r = length (rows_of (g_contract r) logs_historical_df)
        \<and> (2 :: rat) \<le> of_nat (volume_1d_current r) + 1
        \<and> volume_growth_pct r = Some (spec_growth r)
        \<and> (\<exists>t. quantile (map spec_growth (volume_growth logs_1d_current_df logs_historical_df))
                   (8 / 10) = Some t
               \<and> (label r = 1 \<longleftrightarrow> t \<le> spec_growth r)
               \<and> (label r = 0 \<longleftrightarrow> \<not> t \<le> spec_growth r)))
   \<and> length (volume_growth logs_1d_current_df logs_historical_df)
       \<le> 5 * growth_ones (volume_growth logs_1d_current_df logs_historical_df)
   \<and> (distinct (map spec_growth (volume_growth logs_1d_current_df logs_historical_df)) \<longrightarrow>
        5 * growth_ones (volume_growth logs_1d_current_df logs_historical_df)
          \<le> length (volume_growth logs_1d_current_df logs_historical_df) + 4)
   \<and> (\<forall>r \<in> set (volume_growth logs_1d_current_df logs_historical_df).
       \<forall>r' \<in> set (volume_growth logs_1d_current_df logs_historical_df).
         label r = 1 \<and> label r' = 0 \<longrightarrow> spec_growth r' < spec_growth r)"
proof -
  define rows where "rows = volume_growth logs_1d_current_df logs_historical_df"
  define vals where "vals = map spec_growth rows"
  have len: "length vals = length rows"
    by (simp add: vals_def)
  have keys: "set (map g_contract rows) = set (map contract_address logs_1d_current_df)"
  proof -
    have "map g_contract rows = map fst (merge_left (group_size logs_1d_current_df)
        (group_size logs_historical_df))"
      unfolding rows_def volume_growth_rows by (simp add: case_prod_unfold)
    also have "\<dots> = group_keys (map contract_address logs_1d_current_df)"
      by (simp add: merge_left_def group_size_def case_prod_unfold comp_def)
    finally show ?thesis
      by (simp only: set_group_keys)
  qed
  have thr: "\<exists>t. quantile vals (8 / 10) = Some t" if "rows \<noteq> []"
    using that by (intro quantile_Some) (simp add: vals_def)
  have row: "volume_1d_current r = length (rows_of (g_contract r) logs_1d_current_df)
        \<and> 1 \<le> volume_1d_current r
        \<and> volume_future r = length (rows_of (g_contract r) logs_historical_df)
        \<and> (2 :: rat) \<le> of_nat (volume_1d_current r) + 1
        \<and> volume_growth_pct r = Some (spec_growth r)
        \<and> (\<exists>t. quantile vals (8 / 10) = Some t
               \<and> (label r = 1 \<longleftrightarrow> t \<le> spec_growth r)
               \<and> (label r = 0 \<longleftrightarrow> \<not> t \<le> spec_growth r))"
    if r: "r \<in> set rows" for r
  proof -
    from r have r': "r \<in> set (volume_growth logs_1d_current_df logs_historical_df)"
      by (simp only: rows_def)
    from r have "rows \<noteq> []"
      by auto
    from thr [OF this] obtain t where t: "quantile vals (8 / 10) = Some t"
      by blast
    have l: "label r = ge_label (spec_growth r) (Some t)"
      using volume_growth_row(2) [OF r'] t by (simp only: vals_def rows_def)
    have lab: "(label r = 1 \<longleftrightarrow> t \<le> spec_growth r) \<and> (label r = 0 \<longleftrightarrow> \<not> t \<le> spec_growth r)"
      unfolding l by (simp add: ge_label_def)
    have one: "1 \<le> volume_1d_current r"
      by (rule volume_growth_row_counts(3) [OF r'])
    then have "(of_nat 1 :: rat) \<le> of_nat (volume_1d_current r)"
      by (simp only: of_nat_le_iff)
    then have two: "(2 :: rat) \<le> of_nat (volume_1d_current r) + 1"
      by simp
    have ex: "\<exists>t. quantile vals (8 / 10) = Some t
               \<and> (label r = 1 \<longleftrightarrow> t \<le> spec_growth r)
               \<and> (label r = 0 \<longleftrightarrow> \<not> t \<le> spec_growth r)"
      using t lab by (intro exI [of _ t]) simp
    show ?thesis
    proof (intro conjI)
      show "volume_1d_current r = length (rows_of (g_contract r) logs_1d_current_df)"
        by (rule volume_growth_row_counts(2) [OF r'])
      show "1 \<le> volume_1d_current r"
        by (rule one)
      show "volume_future r = length (rows_of (g_contract r) logs_historical_df)"
        by (rule volume_growth_row_counts(4) [OF r'])
      show "(2 :: rat) \<le> of_nat (volume_1d_current r) + 1"
        by (rule two)
      show "volume_growth_pct r = Some (spec_growth r)"
        by (rule volume_growth_row(1) [OF r'])
      show "\<exists>t. quantile vals (8 / 10) = Some t
               \<and> (label r = 1 \<longleftrightarrow> t \<le> spec_growth r)
               \<and> (label r = 0 \<longleftrightarrow> \<not> t \<le> spec_growth r)"
        by (rule ex)
    qed
  qed
  have low: "length rows \<le> 5 * growth_ones rows"
  proof (cases "rows = []")
    case True
    then show ?thesis by simp
  next
    case False
    from thr [OF False] obtain t where t: "quantile vals (8 / 10) = Some t"
      by blast
    have ne: "vals \<noteq> []"
      using False by (simp add: vals_def)
    have o: "growth_ones rows = length (filter (\<lambda>x. t \<le> x) vals)"
      unfolding rows_def vals_def
      by (rule growth_ones_threshold) (use t in \<open>simp only: vals_def rows_def\<close>)
    have "length vals - nat \<lceil>8 / 10 * (of_nat (length vals - 1) :: rat)\<rceil>
        \<le> length (filter (\<lambda>x. t \<le> x) vals)"
      by (rule quantile_count(1) [OF ne _ _ t]) simp_all
    moreover have "length vals \<le> 5 * (length vals - nat \<lceil>8 / 10 * (of_nat (length vals - 1) :: rat)\<rceil>)"
      using ne by (intro eight_tenths_count(1)) simp
    ultimately show ?thesis
      unfolding o len [symmetric] by linarith
  qed
  have up: "5 * growth_ones rows \<le> length rows + 4" if d: "distinct vals"
  proof (cases "rows = []")
    case True
    then show ?thesis by (simp add: growth_ones_def)
  next
    case False
    from thr [OF False] obtain t where t: "quantile vals (8 / 10) = Some t"
      by blast
    have ne: "vals \<noteq> []"
      using False by (simp add: vals_def)
    have o: "growth_ones rows = length (filter (\<lambda>x. t \<le> x) vals)"
      unfolding rows_def vals_def
      by (rule growth_ones_threshold) (use t in \<open>simp only: vals_def rows_def\<close>)
    have e: "length (filter (\<lambda>x. t \<le> x) vals)
        = length vals - nat \<lceil>8 / 10 * (of_nat (length vals - 1) :: rat)\<rceil>"
      by (rule quantile_count(2) [OF ne _ _ t d]) simp_all
    have "5 * (length vals - nat \<lceil>8 / 10 * (of_nat (length vals - 1) :: rat)\<rceil>) \<le> length vals + 4"
      using ne by (intro eight_tenths_count(2)) simp
    then show ?thesis
      unfolding o e len [symmetric] .
  qed
  have top: "spec_growth r' < spec_growth r"
    if "r \<in> set rows" and "r' \<in> set rows" and "label r = 1" and "label r' = 0" for r r'
  proof -
    from that(1) have "rows \<noteq> []"
      by auto
    from thr [OF this] obtain t where t: "quantile vals (8 / 10) = Some t"
      by (rule exE)
    have l: "label r = ge_label (spec_growth r) (Some t)"
      using volume_growth_row(2) [of r logs_1d_current_df logs_historical_df] that(1) t
      by (simp only: vals_def rows_def)
    have "ge_label (spec_growth r) (Some t) = 1"
      using that(3) by (simp only: l)
    then have a: "t \<le> spec_growth r"
      by (cases "t \<le> spec_growth r") (simp_all add: ge_label_def)
    have l': "label r' = ge_label (spec_growth r') (Some t)"
      using volume_growth_row(2) [of r' logs_1d_current_df logs_historical_df] that(2) t
      by (simp only: vals_def rows_def)
    have "ge_label (spec_growth r') (Some t) = 0"
      using that(4) by (simp only: l')
    then have b: "\<not> t \<le> spec_growth r'"
      by (cases "t \<le> spec_growth r'") (simp_all add: ge_label_def)
    from a b show ?thesis
      by simp
  qed
  note keys' = keys [unfolded rows_def]
  note row' = row [unfolded vals_def rows_def]
  note low' = low [unfolded rows_def]
  note up' = up [unfolded vals_def rows_def]
  note top' = top [unfolded rows_def]
  show ?thesis
  proof (intro conjI)
    show "set (map g_contract (volume_growth logs_1d_current_df logs_historical_df))
        = set (map contract_address logs_1d_current_df)"
      by (rule keys')
    show "\<forall>r \<in> set (volume_growth logs_1d_current_df logs_historical_df).
        volume_1d_current r = length (rows_of (g_contract r) logs_1d_current_df)
        \<and> 1 \<le> volume_1d_current r
        \<and> volume_future r = length (rows_of (g_contract r) logs_historical_df)
        \<and> (2 :: rat) \<le> of_nat (volume_1d_current r) + 1
        \<and> volume_growth_pct r = Some (spec_growth r)
        \<and> (\<exists>t. quantile (map spec_growth (volume_growth logs_1d_current_df logs_historical_df))
                   (8 / 10) = Some t
               \<and> (label r = 1 \<longleftrightarrow> t \<le> spec_growth r)
               \<and> (label r = 0 \<longleftrightarrow> \<not> t \<le> spec_growth r))"
    proof
      fix r
      assume "r \<in> set (volume_growth logs_1d_current_df logs_historical_df)"
      then show "volume_1d_current r = length (rows_of (g_contract r) logs_1d_current_df)
        \<and> 1 \<le> volume_1d_current r
        \<and> volume_future r = length (rows_of (g_contract r) logs_historical_df)
        \<and> (2 :: rat) \<le> of_nat (volume_1d_current r) + 1
        \<and> volume_growth_pct r = Some (spec_growth r)
        \<and> (\<exists>t. quantile (map spec_growth (volume_growth logs_1d_current_df logs_historical_df))
                   (8 / 10) = Some t
               \<and> (label r = 1 \<longleftrightarrow> t \<le> spec_growth r)
               \<and> (label r = 0 \<longleftrightarrow> \<not> t \<le> spec_growth r))"
        by (rule row')
    qed
    show "length (volume_growth logs_1d_current_df logs_historical_df)
        \<le> 5 * growth_ones (volume_growth logs_1d_current_df logs_historical_df)"
      by (rule low')
    show "distinct (map spec_growth (volume_growth logs_1d_current_df logs_historical_df)) \<longrightarrow>
        5 * growth_ones (volume_growth logs_1d_current_df logs_historical_df)
          \<le> length (volume_growth logs_1d_current_df logs_historical_df) + 4"
      by (intro impI) (rule up')
    show "\<forall>r \<in> set (volume_growth logs_1d_current_df logs_historical_df).
       \<forall>r' \<in> set (volume_growth logs_1d_current_df logs_historical_df).
         label r = 1 \<and> label r' = 0 \<longrightarrow> spec_growth r' < spec_growth r"
    proof (intro ballI impI)
      fix r r'
      assume "r \<in> set (volume_growth logs_1d_current_df logs_historical_df)"
        and "r' \<in> set (volume_growth logs_1d_current_df logs_historical_df)"
        and "label r = 1 \<and> label r' = 0"
      then show "spec_growth r' < spec_growth r"
        using top' [of r r'] by simp
    qed
  qed
qed

lemma volume_growth_example:
  "volume_growth two_pool_logs week_logs =
     [\<lparr>g_contract = ''A'', volume_1d_current = 1, volume_future = 7,
       volume_growth_pct = Some 300, label = 1\<rparr>,
      \<lparr>g_contract = ''B'', volume_1d_current = 2, volume_future = 0,
       volume_growth_pct = Some (- 200 / 3), label = 0\<rparr>]"
  by code_simp

theorem growth_label_rows_witness:
  "volume_growth two_pool_logs week_logs =
     [\<lparr>g_contract = ''A'', volume_1d_current = 1, volume_future = 7,
       volume_growth_pct = Some 300, label = 1\<rparr>,
      \<lparr>g_contract = ''B'', volume_1d_current = 2, volume_future = 0,
       volume_growth_pct = Some (- 200 / 3), label = 0\<rparr>]
   \<and> map spec_growth (volume_growth two_pool_logs week_logs) = [300, - 200 / 3]
   \<and> growth_ones (volume_growth two_pool_logs week_logs) = 1
   \<and> 5 * growth_ones (volume_growth two_pool_logs week_logs)
       \<le> length (volume_growth two_pool_logs week_logs) + 4
   \<and> volume_growth_pct (volume_growth two_pool_logs week_logs ! 0)
       = Some (spec_growth (volume_growth two_pool_logs week_logs ! 0))
   \<and> spec_growth (volume_growth two_pool_logs week_logs ! 1)
       < spec_growth (volume_growth two_pool_logs week_logs ! 0)"
proof -
  note th = growth_label_rows [of two_pool_logs week_logs]
  have v: "map spec_growth (volume_growth two_pool_logs week_logs) = [300, - 200 / 3]"
    unfolding volume_growth_example by (simp add: spec_growth_def)
  then have d: "distinct (map spec_growth (volume_growth two_pool_logs week_logs))"
    by simp
  have b: "5 * growth_ones (volume_growth two_pool_logs week_logs)
       \<le> length (volume_growth two_pool_logs week_logs) + 4"
    using th d by blast
  have g: "growth_ones (volume_growth two_pool_logs week_logs) = 1"
    unfolding volume_growth_example by (simp add: growth_ones_def)
  have m: "volume_growth two_pool_logs week_logs ! 0 \<in> set (volume_growth two_pool_logs week_logs)"
    "volume_growth two_pool_logs week_logs ! 1 \<in> set (volume_growth two_pool_logs week_logs)"
    unfolding volume_growth_example by simp_all
  have l: "label (volume_growth two_pool_logs week_logs ! 0) = 1
      \<and> label (volume_growth two_pool_logs week_logs ! 1) = 0"
    unfolding volume_growth_example by simp
  from th have "\<forall>r \<in> set (volume_growth two_pool_logs week_logs).
      volume_growth_pct r = Some (spec_growth r)"
    by blast
  with m(1) have p: "volume_growth_pct (volume_growth two_pool_logs week_logs ! 0)
       = Some (spec_growth (volume_growth two_pool_logs week_logs ! 0))"
    by blast
  from th have "\<forall>r \<in> set (volume_growth two_pool_logs week_logs).
       \<forall>r' \<in> set (volume_growth two_pool_logs week_logs).
         label r = 1 \<and> label r' = 0 \<longrightarrow> spec_growth r' < spec_growth r"
    by blast
  with m l have t: "spec_growth (volume_growth two_pool_logs week_logs ! 1)
       < spec_growth (volume_growth two_pool_logs week_logs ! 0)"
    by blast
  from volume_growth_example v g b p t show ?thesis
    by blast
qed

section \<open>The ensemble does not depend on the order of the timeframes\<close>

lemma ensemble_step_None:
  "weighted_probs get_model get_feature_list predict_proba timeframe = None \<Longrightarrow>
   ensemble_step get_model get_feature_list predict_proba current_features st timeframe = st"
  by (simp add: ensemble_step_def)

lemma ensemble_step_first:
  "weighted_probs get_model get_feature_list predict_proba timeframe = Some w \<Longrightarrow>
   ensemble_step get_model get_feature_list predict_proba current_features (None, s) timeframe
     = (Some (map w current_features), s @ [timeframe])"
  by (simp add: ensemble_step_def)

lemma map2_add_map: "map2 (+) (map a xs) (map w xs) = map (\<lambda>r. a r + w r) xs"
  by (induction xs) simp_all

lemma ensemble_step_next:
  "weighted_probs get_model get_feature_list predict_proba timeframe = Some w \<Longrightarrow>
   ensemble_step get_model get_feature_list predict_proba current_features
       (Some (map a current_features), s) timeframe
     = (Some (map (\<lambda>r. a r + w r) current_features), s @ [timeframe])"
  by (simp add: ensemble_step_def map2_add_map)

lemma ensemble_fold_Some:
  "fst (foldl (ensemble_step get_model get_feature_list predict_proba current_features)
          (Some (map a current_features), s) timeframes)
     = Some (map (\<lambda>r. a r + sum_list (map (\<lambda>w. w r)
          (List.map_filter (weighted_probs get_model get_feature_list predict_proba) timeframes)))
            current_features)"
proof (induction timeframes arbitrary: a s)
  case Nil
  show ?case by simp
next
  case (Cons timeframe timeframes)
  show ?case
  proof (cases "weighted_probs get_model get_feature_list predict_proba timeframe")
    case None
    then show ?thesis
      by (simp add: ensemble_step_None Cons.IH)
  next
    case (Some w)
    then show ?thesis
      by (simp add: ensemble_step_next Cons.IH add.assoc)
  qed
qed

lemma ensemble_fold_None:
  "fst (foldl (ensemble_step get_model get_feature_list predict_proba current_features)
          (None, s) timeframes)
     = (if List.map_filter (weighted_probs get_model get_feature_list predict_proba) timeframes = []
        then None
        else Some (map (\<lambda>r. sum_list (map (\<lambda>w. w r)
          (List.map_filter (weighted_probs get_model get_feature_list predict_proba) timeframes)))
            current_features))"
proof (induction timeframes arbitrary: s)
  case Nil
  show ?case by simp
next
  case (Cons timeframe timeframes)
  show ?case
  proof (cases "weighted_probs get_model get_feature_list predict_proba timeframe")
    case None
    then show ?thesis
      by (simp add: ensemble_step_None Cons.IH)
  next
    case (Some w)
    then show ?thesis
      by (simp add: ensemble_step_first ensemble_fold_Some)
  qed
qed

lemma mset_map_filter:
  "mset (List.map_filter f xs) = image_mset (the \<circ> f) (filter_mset (\<lambda>x. f x \<noteq> None) (mset xs))"
  by (simp add: List.map_filter_def)

lemma sum_list_mset_cong:
  fixes ws :: "('row \<Rightarrow> rat) list"
  assumes "mset ws = mset vs"
  shows "sum_list (map (\<lambda>w. w r) ws) = sum_list (map (\<lambda>w. w r) vs)"
proof -
  have "sum_list (map (\<lambda>w. w r) ws) = sum_mset (image_mset (\<lambda>w. w r) (mset ws))"
    by (metis mset_map sum_mset_sum_list)
  also have "\<dots> = sum_mset (image_mset (\<lambda>w. w r) (mset vs))"
    by (simp only: assms)
  also have "\<dots> = sum_list (map (\<lambda>w. w r) vs)"
    by (metis mset_map sum_mset_sum_list)
  finally show ?thesis .
qed

lemma weighted_probs_Some:
  assumes "weighted_probs get_model get_feature_list predict_proba timeframe = Some w"
  shows "\<exists>model features_to_use probabilities.
           predict_proba model features_to_use = Inr probabilities
           \<and> w = (\<lambda>row. probabilities row * timeframe_weight timeframe)"
  using assms unfolding weighted_probs_def Let_def
  by (auto split: sum.splits prod.splits if_splits)

text \<open>
  C10. The combined scores exist when at least one timeframe has a usable model; they
  give every row of the feature table the sum, over the timeframes with a usable model, of
  the probability of that model times the weight of the timeframe. Two lists of
  timeframes that are permutations of each other give every row the same combined score
  (in exact arithmetic).
\<close>

theorem ensemble_order_independent:
  "fst (ensemble_scores get_model get_feature_list predict_proba current_features timeframes) =
     (if List.map_filter (weighted_probs get_model get_feature_list predict_proba) timeframes = []
      then None
      else Some (map (\<lambda>row. sum_list (map (\<lambda>w. w row)
             (List.map_filter (weighted_probs get_model get_feature_list predict_proba) timeframes)))
                  current_features))
   \<and> (\<forall>timeframe w.
        weighted_probs get_model get_feature_list predict_proba timeframe = Some w \<longrightarrow>
        (\<exists>model features_to_use probabilities.
           predict_proba model features_to_use = Inr probabilities
           \<and> w = (\<lambda>row. probabilities row * timeframe_weight timeframe)))
   \<and> (mset timeframes = mset timeframes' \<longrightarrow>
        fst (ensemble_scores get_model get_feature_list predict_proba current_features timeframes)
        = fst (ensemble_scores get_model get_feature_list predict_proba current_features timeframes'))"
proof (intro conjI allI impI)
  show "fst (ensemble_scores get_model get_feature_list predict_proba current_features timeframes) =
     (if List.map_filter (weighted_probs get_model get_feature_list predict_proba) timeframes = []
      then None
      else Some (map (\<lambda>row. sum_list (map (\<lambda>w. w row)
             (List.map_filter (weighted_probs get_model get_feature_list predict_proba) timeframes)))
                  current_features))"
    unfolding ensemble_scores_def by (rule ensemble_fold_None)
next
  fix timeframe w
  assume "weighted_probs get_model get_feature_list predict_proba timeframe = Some w"
  then show "\<exists>model features_to_use probabilities.
           predict_proba model features_to_use = Inr probabilities
           \<and> w = (\<lambda>row. probabilities row * timeframe_weight timeframe)"
    by (rule weighted_probs_Some)
next
  assume p: "mset timeframes = mset timeframes'"
  let ?ws = "List.map_filter (weighted_probs get_model get_feature_list predict_proba) timeframes"
  let ?vs = "List.map_filter (weighted_probs get_model get_feature_list predict_proba) timeframes'"
  have m: "mset ?ws = mset ?vs"
    by (simp only: mset_map_filter p)
  then have e: "?ws = [] \<longleftrightarrow> ?vs = []"
    by (metis mset_zero_iff)
  have s: "(\<lambda>r. sum_list (map (\<lambda>w. w r) ?ws)) = (\<lambda>r. sum_list (map (\<lambda>w. w r) ?vs))"
    by (rule ext) (rule sum_list_mset_cong [OF m])
  show "fst (ensemble_scores get_model get_feature_list predict_proba current_features timeframes)
        = fst (ensemble_scores get_model get_feature_list predict_proba current_features timeframes')"
    unfolding ensemble_scores_def ensemble_fold_None e s ..
qed

lemma ensemble_demo:
  "fst (ensemble_scores demo_get_model demo_get_feature_list demo_predict_proba
          (features_from_logs_df two_pool_logs) [''1D'', ''3D'', ''1W''])
     = Some [1 / 4, 3 / 10]"
  by code_simp

theorem ensemble_order_independent_witness:
  "fst (ensemble_scores demo_get_model demo_get_feature_list demo_predict_proba
          (features_from_logs_df two_pool_logs) [''1W'', ''1D'', ''3D''])
     = Some [1 / 4, 3 / 10]
   \<and> fst (ensemble_scores demo_get_model demo_get_feature_list demo_predict_proba
          (features_from_logs_df two_pool_logs) [''1D'', ''3D'', ''1W''])
     = Some [1 / 4, 3 / 10]"
proof -
  have "mset [''1W'', ''1D'', ''3D''] = mset [''1D'', ''3D'', ''1W'']"
    by simp
  with ensemble_order_independent [of demo_get_model demo_get_feature_list
      demo_predict_proba "features_from_logs_df two_pool_logs" "[''1W'', ''1D'', ''3D'']"
      "[''1D'', ''3D'', ''1W'']"]
  have "fst (ensemble_scores demo_get_model demo_get_feature_list demo_predict_proba
          (features_from_logs_df two_pool_logs) [''1W'', ''1D'', ''3D''])
     = fst (ensemble_scores demo_get_model demo_get_feature_list demo_predict_proba
          (features_from_logs_df two_pool_logs) [''1D'', ''3D'', ''1W''])"
    by blast
  then show ?thesis
    unfolding ensemble_demo by simp
qed

end
